theory Spec2Isabelle
  imports
    Main
    "HOL-Library.Sublist"
    "HOL-Library.Multiset"
    "HOL-Library.Char_ord"
    "HOL-Library.List_Lexorder"
    "HOL-Library.Product_Lexorder"
begin

section \<open>Slice filtering of ccanalyser (src/ccanalyser/tools/filter.py)\<close>

text \<open>
  The slice table is a pandas DataFrame. It is modelled as the list of its rows, in table
  order; every filter operation of the source replaces \<^verbatim>\<open>self.slices\<close> by a new
  frame, which is the list the operation returns here. Python exceptions are values of
  the type \<open>error\<close>; an operation that may raise returns \<open>error + slice_row list\<close>.
\<close>

subsection \<open>Data model\<close>

datatype error =
    KeyError string
  | ValueError string
  | TypeError
  | IndexingError
  | AttributeError

text \<open>
  A value of the \<^verbatim>\<open>restriction_fragment\<close> column: an integer identifier, or a string
  (the sentinel \<^verbatim>\<open>"."\<close> of an unassigned slice).
\<close>

datatype cell = IntV int | StrV string

record slice_row =
  slice_name :: string
  parent_read :: string
  pe :: string
  mapped :: int
  multimapped :: int
  slice :: int
  chrom :: string
  start :: int
  end' :: int
  capture :: string
  capture_count :: int
  exclusion :: string
  exclusion_count :: int
  blacklist :: int
  restriction_fragment :: cell
  coordinates :: string

text \<open>
  One row of the frame returned by \<^verbatim>\<open>TiledCSliceFilter.fragments\<close> (columns after
  the renaming); \<^verbatim>\<open>CCSliceFilter.fragments\<close> has four columns more.
\<close>

record fragment =
  fr_parent_read :: string
  unique_slices :: int
  fr_pe :: string
  fr_mapped :: int
  fr_multimapped :: int
  fr_capture_count :: int
  unique_restriction_fragments :: int
  blacklisted_slices :: int
  fr_coordinates :: string

record cc_fragment = fragment +
  unique_capture_sites :: int
  unique_exclusion_sites :: int
  fr_exclusion_count :: int
  reporter_count :: int

subsection \<open>pandas primitives\<close>

text \<open>\<^verbatim>\<open>Series.nunique\<close>: the number of distinct values.\<close>

definition nunique :: "'a list \<Rightarrow> int" where
  "nunique xs = int (length (remdups xs))"

text \<open>\<^verbatim>\<open>Series.unique\<close>: the distinct values in order of first appearance.\<close>

definition unique_first :: "'a list \<Rightarrow> 'a list" where
  "unique_first xs = rev (remdups (rev xs))"

text \<open>The aggregation \<^verbatim>\<open>"first"\<close> of a group (groups of a groupby are never empty).\<close>

fun first_value :: "string list \<Rightarrow> string" where
  "first_value [] = []"
| "first_value (x # xs) = x"

text \<open>\<^verbatim>\<open>sep.join(xs)\<close>.\<close>

fun join :: "string \<Rightarrow> string list \<Rightarrow> string" where
  "join sep [] = []"
| "join sep [x] = x"
| "join sep (x # y # ys) = x @ sep @ join sep (y # ys)"

text \<open>
  \<^verbatim>\<open>str.split\<close> on the characters satisfying \<open>P\<close>: \<^verbatim>\<open>split("|")\<close> is
  \<open>split_on (\<lambda>c. c = CHR ''|'')\<close>, the regular expression \<^verbatim>\<open>":|-"\<close> splits on a
  colon or a hyphen. The result always has at least one element.
\<close>

fun split_on :: "(char \<Rightarrow> bool) \<Rightarrow> string \<Rightarrow> string list" where
  "split_on P [] = [[]]"
| "split_on P (c # cs) =
     (if P c then [] # split_on P cs
      else (case split_on P cs of [] \<Rightarrow> [[c]] | w # ws \<Rightarrow> (c # w) # ws))"

text \<open>\<^verbatim>\<open>Series.str.contains(sub)\<close> for a pattern without metacharacters.\<close>

fun str_contains :: "string \<Rightarrow> string \<Rightarrow> bool" where
  "str_contains sub [] = (sub = [])"
| "str_contains sub (c # cs) = (prefix sub (c # cs) \<or> str_contains sub cs)"

text \<open>
  \<^verbatim>\<open>drop_duplicates(subset=key, keep="first")\<close> and \<^verbatim>\<open>duplicated(subset=key)\<close>:
  a row is a duplicate when its key was seen in an earlier row. \<open>seen\<close> holds the keys
  met so far.
\<close>

fun drop_dups :: "('a \<Rightarrow> 'k) \<Rightarrow> 'k list \<Rightarrow> 'a list \<Rightarrow> 'a list" where
  "drop_dups key seen [] = []"
| "drop_dups key seen (x # xs) =
     (if key x \<in> set seen then drop_dups key seen xs
      else x # drop_dups key (key x # seen) xs)"

definition drop_duplicates :: "('a \<Rightarrow> 'k) \<Rightarrow> 'a list \<Rightarrow> 'a list" where
  "drop_duplicates key xs = drop_dups key [] xs"

fun dup_rows :: "('a \<Rightarrow> 'k) \<Rightarrow> 'k list \<Rightarrow> 'a list \<Rightarrow> 'a list" where
  "dup_rows key seen [] = []"
| "dup_rows key seen (x # xs) =
     (if key x \<in> set seen then x # dup_rows key seen xs
      else dup_rows key (key x # seen) xs)"

text \<open>The rows selected by the mask \<^verbatim>\<open>df.duplicated(subset=key)\<close>.\<close>

definition duplicated_rows :: "('a \<Rightarrow> 'k) \<Rightarrow> 'a list \<Rightarrow> 'a list" where
  "duplicated_rows key xs = dup_rows key [] xs"

text \<open>
  \<^verbatim>\<open>groupby("parent_read", sort=False)\<close>: one group per parent read, in order of first
  appearance, each holding its rows in table order.
\<close>

definition groupby_parent_read :: "slice_row list \<Rightarrow> (string \<times> slice_row list) list" where
  "groupby_parent_read rows =
     map (\<lambda>k. (k, filter (\<lambda>s. parent_read s = k) rows)) (unique_first (map parent_read rows))"

text \<open>
  \<^verbatim>\<open>sort_values(["parent_read", "chrom", "start"])\<close>: a sort on several columns is a
  stable lexicographic sort.
\<close>

definition sort_for_fragments :: "slice_row list \<Rightarrow> slice_row list" where
  "sort_for_fragments rows = sort_key (\<lambda>s. (parent_read s, chrom s, start s)) rows"

subsection \<open>The fragments property\<close>

definition tiled_agg :: "string \<Rightarrow> slice_row list \<Rightarrow> fragment" where
  "tiled_agg k g =
     \<lparr> fr_parent_read = k,
       unique_slices = nunique (map slice g),
       fr_pe = first_value (map pe g),
       fr_mapped = sum_list (map mapped g),
       fr_multimapped = sum_list (map multimapped g),
       fr_capture_count = sum_list (map capture_count g),
       unique_restriction_fragments = nunique (map restriction_fragment g),
       blacklisted_slices = sum_list (map blacklist g),
       fr_coordinates = join ''|'' (map coordinates g) \<rparr>"

definition TiledC_fragments :: "slice_row list \<Rightarrow> fragment list" where
  "TiledC_fragments slices =
     map (\<lambda>(k, g). tiled_agg k g) (groupby_parent_read (sort_for_fragments slices))"

definition cc_agg :: "string \<Rightarrow> slice_row list \<Rightarrow> cc_fragment" where
  "cc_agg k g =
     (let mapped_sum = sum_list (map mapped g);
          capture_count_sum = sum_list (map capture_count g);
          exclusion_count_sum = sum_list (map exclusion_count g);
          blacklist_sum = sum_list (map blacklist g)
      in \<lparr> fr_parent_read = k,
           unique_slices = nunique (map slice g),
           fr_pe = first_value (map pe g),
           fr_mapped = mapped_sum,
           fr_multimapped = sum_list (map multimapped g),
           fr_capture_count = capture_count_sum,
           unique_restriction_fragments = nunique (map restriction_fragment g),
           blacklisted_slices = blacklist_sum,
           fr_coordinates = join ''|'' (map coordinates g),
           unique_capture_sites = nunique (map capture g) - 1,
           unique_exclusion_sites = nunique (map exclusion g) - 1,
           fr_exclusion_count = exclusion_count_sum,
           reporter_count =
             (if capture_count_sum > 0
              then mapped_sum - (exclusion_count_sum + capture_count_sum + blacklist_sum)
              else 0) \<rparr>)"

definition CC_fragments :: "slice_row list \<Rightarrow> cc_fragment list" where
  "CC_fragments slices =
     map (\<lambda>(k, g). cc_agg k g) (groupby_parent_read (sort_for_fragments slices))"

subsection \<open>Construction\<close>

definition columns_required :: "string list" where
  "columns_required =
     [''slice_name'', ''parent_read'', ''pe'', ''mapped'', ''multimapped'', ''slice'',
      ''chrom'', ''start'', ''end'', ''capture'', ''capture_count'', ''exclusion'',
      ''blacklist'', ''coordinates'']"

definition missing_column_message :: "string \<Rightarrow> string" where
  "missing_column_message col =
     ''Required column '' @ [CHR 0x22] @ col @ [CHR 0x22] @ '' not in slices dataframe''"

text \<open>The loop of \<^verbatim>\<open>_check_required_columns_present\<close> over a list of required names.\<close>

fun check_columns :: "string list \<Rightarrow> string list \<Rightarrow> error + unit" where
  "check_columns [] df_columns = Inr ()"
| "check_columns (col # cols) df_columns =
     (if col \<notin> set df_columns then Inl (KeyError (missing_column_message col))
      else check_columns cols df_columns)"

definition check_required_columns_present :: "string list \<Rightarrow> error + unit" where
  "check_required_columns_present df_columns = check_columns columns_required df_columns"

text \<open>
  The state of a filter object: the table it holds, its stages (an ordered dict from stage
  name to method names) and the statistics recorded per stage.
\<close>

record 'st slice_filter =
  self_slices :: "slice_row list"
  self_filter_stages :: "(string \<times> string list) list"
  self_filter_stats :: "(string \<times> 'st) list"

text \<open>
  \<^verbatim>\<open>SliceFilter.__init__\<close>. The frame is given by its header \<open>df_columns\<close> and its
  rows; the constructor reads the header only in the column check. \<open>stages\<close> is
  \<open>None\<close> for the Python \<^verbatim>\<open>None\<close>; an empty dict is falsy as well.
\<close>

definition SliceFilter_init ::
  "string list \<Rightarrow> slice_row list \<Rightarrow> (string \<times> string list) list option \<Rightarrow> error + 'st slice_filter"
where
  "SliceFilter_init df_columns rows stages =
     (case check_required_columns_present df_columns of
        Inl e \<Rightarrow> Inl e
      | Inr _ \<Rightarrow>
          (case stages of
             None \<Rightarrow> Inl (ValueError ''Filter stages not provided'')
           | Some [] \<Rightarrow> Inl (ValueError ''Filter stages not provided'')
           | Some fs \<Rightarrow>
               Inr \<lparr> self_slices = sort_key (\<lambda>s. (parent_read s, slice s)) rows,
                     self_filter_stages = fs,
                     self_filter_stats = [] \<rparr>))"

definition CC_default_stages :: "(string \<times> string list) list" where
  "CC_default_stages =
     [(''pre-filtering'', [''get_raw_slices'']),
      (''mapped'', [''remove_unmapped_slices'']),
      (''contains_single_capture'',
         [''remove_orphan_slices'', ''remove_multi_capture_fragments'']),
      (''contains_capture_and_reporter'',
         [''remove_excluded_slices'', ''remove_blacklisted_slices'',
          ''remove_non_reporter_fragments'', ''remove_multicapture_reporters'']),
      (''duplicate_filtered'',
         [''remove_slices_without_re_frag_assigned'', ''remove_duplicate_re_frags'',
          ''remove_duplicate_slices'', ''remove_duplicate_slices_pe'',
          ''remove_non_reporter_fragments''])]"

definition TriC_default_stages :: "(string \<times> string list) list" where
  "TriC_default_stages =
     [(''pre-filtering'', [''get_raw_slices'']),
      (''mapped'', [''remove_unmapped_slices'', ''remove_slices_without_re_frag_assigned'']),
      (''contains_single_capture'',
         [''remove_orphan_slices'', ''remove_multi_capture_fragments'']),
      (''contains_capture_and_reporter'',
         [''remove_blacklisted_slices'', ''remove_non_reporter_fragments'']),
      (''duplicate_filtered'',
         [''remove_duplicate_re_frags'', ''remove_duplicate_slices'',
          ''remove_duplicate_slices_pe'', ''remove_non_reporter_fragments'']),
      (''tric_reporter'', [''remove_slices_with_one_reporter''])]"

definition TiledC_default_stages :: "(string \<times> string list) list" where
  "TiledC_default_stages =
     [(''pre-filtering'', [''get_raw_slices'']),
      (''mapped'', [''remove_unmapped_slices'', ''remove_orphan_slices'']),
      (''not_blacklisted'', [''remove_blacklisted_slices'']),
      (''contains_capture'',
         [''remove_non_capture_fragments'', ''remove_dual_capture_fragments'']),
      (''duplicate_filtered'',
         [''remove_slices_without_re_frag_assigned'', ''remove_duplicate_re_frags'',
          ''remove_duplicate_slices'', ''remove_duplicate_slices_pe'']),
      (''has_reporter'', [''remove_orphan_slices''])]"

text \<open>The subclasses supply their own stages when the caller gives none.\<close>

definition stages_or_default ::
  "(string \<times> string list) list \<Rightarrow> (string \<times> string list) list option
     \<Rightarrow> (string \<times> string list) list option"
where
  "stages_or_default dflt stages =
     (case stages of None \<Rightarrow> Some dflt | Some [] \<Rightarrow> Some dflt | Some fs \<Rightarrow> Some fs)"

definition CCSliceFilter_init ::
  "string list \<Rightarrow> slice_row list \<Rightarrow> (string \<times> string list) list option \<Rightarrow> error + 'st slice_filter"
where
  "CCSliceFilter_init df_columns rows stages =
     SliceFilter_init df_columns rows (stages_or_default CC_default_stages stages)"

definition TriCSliceFilter_init ::
  "string list \<Rightarrow> slice_row list \<Rightarrow> (string \<times> string list) list option \<Rightarrow> error + 'st slice_filter"
where
  "TriCSliceFilter_init df_columns rows stages =
     SliceFilter_init df_columns rows (stages_or_default TriC_default_stages stages)"

definition TiledCSliceFilter_init ::
  "string list \<Rightarrow> slice_row list \<Rightarrow> (string \<times> string list) list option \<Rightarrow> error + 'st slice_filter"
where
  "TiledCSliceFilter_init df_columns rows stages =
     SliceFilter_init df_columns rows (stages_or_default TiledC_default_stages stages)"

subsection \<open>Filter operations of the base class\<close>

text \<open>
  The operations that read \<^verbatim>\<open>self.fragments\<close> take the property of the class at hand
  as the argument \<open>fragments\<close>.
\<close>

definition get_raw_slices :: "slice_row list \<Rightarrow> slice_row list" where
  "get_raw_slices slices = slices"

definition remove_unmapped_slices :: "slice_row list \<Rightarrow> slice_row list" where
  "remove_unmapped_slices slices = filter (\<lambda>s. mapped s = 1) slices"

definition remove_orphan_slices ::
  "(slice_row list \<Rightarrow> 'a fragment_scheme list) \<Rightarrow> slice_row list \<Rightarrow> slice_row list"
where
  "remove_orphan_slices fragments slices =
     (let fragments_multislice = filter (\<lambda>f. unique_slices f > 1) (fragments slices)
      in filter (\<lambda>s. parent_read s \<in> set (map fr_parent_read fragments_multislice)) slices)"

definition remove_duplicate_re_frags :: "slice_row list \<Rightarrow> slice_row list" where
  "remove_duplicate_re_frags slices =
     drop_duplicates (\<lambda>s. (parent_read s, restriction_fragment s)) slices"

definition remove_slices_without_re_frag_assigned :: "slice_row list \<Rightarrow> slice_row list" where
  "remove_slices_without_re_frag_assigned slices =
     filter (\<lambda>s. restriction_fragment s \<noteq> StrV ''.'') slices"

text \<open>
  \<^verbatim>\<open>remove_duplicate_slices\<close>. \<^verbatim>\<open>sample(frac=1)\<close> returns the fragment rows in a random
  order; \<open>shuffle\<close> is the order drawn, any permutation of its argument.
\<close>

definition remove_duplicate_slices ::
  "(slice_row list \<Rightarrow> 'a fragment_scheme list)
     \<Rightarrow> ('a fragment_scheme list \<Rightarrow> 'a fragment_scheme list)
     \<Rightarrow> slice_row list \<Rightarrow> slice_row list"
where
  "remove_duplicate_slices fragments shuffle slices =
     (let frags_deduplicated = drop_duplicates fr_coordinates (shuffle (fragments slices))
      in filter (\<lambda>s. parent_read s \<in> set (map fr_parent_read frags_deduplicated)) slices)"

text \<open>Indexing a list column with \<^verbatim>\<open>.str[i]\<close>: a missing element gives NaN.\<close>

fun str_get :: "'a list \<Rightarrow> nat \<Rightarrow> 'a option" where
  "str_get [] i = None"
| "str_get (x # xs) 0 = Some x"
| "str_get (x # xs) (Suc i) = str_get xs i"

fun str_get_last :: "'a list \<Rightarrow> 'a option" where
  "str_get_last [] = None"
| "str_get_last [x] = Some x"
| "str_get_last (x # y # ys) = str_get_last (y # ys)"

definition is_bar :: "char \<Rightarrow> bool" where
  "is_bar c = (c = CHR ''|'')"

definition is_colon_or_hyphen :: "char \<Rightarrow> bool" where
  "is_colon_or_hyphen c = (c = CHR '':'' \<or> c = CHR ''-'')"

definition read_start :: "string \<Rightarrow> string option" where
  "read_start coords =
     Option.bind (str_get (split_on is_bar coords) 0)
       (\<lambda>e. str_get (split_on is_colon_or_hyphen e) 1)"

definition read_end :: "string \<Rightarrow> string option" where
  "read_end coords =
     Option.bind (str_get_last (split_on is_bar coords))
       (\<lambda>e. str_get_last (split_on is_colon_or_hyphen e))"

definition remove_duplicate_slices_pe ::
  "(slice_row list \<Rightarrow> 'a fragment_scheme list) \<Rightarrow> slice_row list \<Rightarrow> slice_row list"
where
  "remove_duplicate_slices_pe fragments slices =
     (if length (filter (\<lambda>s. str_contains ''unflashed'' (pe s)) slices) > 1
      then
        (let fragments_pe = filter (\<lambda>f. fr_pe f = ''unflashed'') (fragments slices);
             fragments_pe_duplicated =
               duplicated_rows
                 (\<lambda>f. (read_start (fr_coordinates f), read_end (fr_coordinates f)))
                 fragments_pe
         in filter
              (\<lambda>s. \<not> parent_read s \<in> set (map fr_parent_read fragments_pe_duplicated))
              slices)
      else slices)"

definition remove_excluded_slices :: "slice_row list \<Rightarrow> slice_row list" where
  "remove_excluded_slices slices = filter (\<lambda>s. exclusion_count s < 1) slices"

definition remove_blacklisted_slices :: "slice_row list \<Rightarrow> slice_row list" where
  "remove_blacklisted_slices slices = filter (\<lambda>s. blacklist s < 1) slices"

subsection \<open>Operations of CCSliceFilter and TriCSliceFilter\<close>

definition reporters :: "slice_row list \<Rightarrow> slice_row list" where
  "reporters slices = filter (\<lambda>s. capture s = ''.'') slices"

definition captures :: "slice_row list \<Rightarrow> slice_row list" where
  "captures slices = filter (\<lambda>s. \<not> (capture s = ''.'')) slices"

definition remove_non_reporter_fragments :: "slice_row list \<Rightarrow> slice_row list" where
  "remove_non_reporter_fragments slices =
     (let frags_reporter = filter (\<lambda>f. reporter_count f > 0) (CC_fragments slices)
      in filter (\<lambda>s. parent_read s \<in> set (map fr_parent_read frags_reporter)) slices)"

definition remove_multi_capture_fragments :: "slice_row list \<Rightarrow> slice_row list" where
  "remove_multi_capture_fragments slices =
     (let frags_capture =
            filter (\<lambda>f. 0 < unique_capture_sites f \<and> unique_capture_sites f < 2)
              (CC_fragments slices)
      in filter (\<lambda>s. parent_read s \<in> set (map fr_parent_read frags_capture)) slices)"

text \<open>
  \<^verbatim>\<open>frag + modifier\<close>: integer addition on an integer identifier; adding an integer to
  a string raises \<^verbatim>\<open>TypeError\<close>.
\<close>

fun add_modifier :: "cell \<Rightarrow> int \<Rightarrow> error + cell" where
  "add_modifier (IntV i) modifier = Inr (IntV (i + modifier))"
| "add_modifier (StrV s) modifier = Inl TypeError"

text \<open>A list comprehension stops at the first element whose evaluation raises.\<close>

fun collect :: "(error + 'a) list \<Rightarrow> error + 'a list" where
  "collect [] = Inr []"
| "collect (Inl e # rs) = Inl e"
| "collect (Inr x # rs) = (case collect rs of Inl e \<Rightarrow> Inl e | Inr xs \<Rightarrow> Inr (x # xs))"

definition excluded_fragments :: "int \<Rightarrow> cell list \<Rightarrow> error + cell list" where
  "excluded_fragments n_adjacent re_frags =
     collect (concat (map (\<lambda>frag. map (\<lambda>modifier. add_modifier frag modifier)
                                    [- n_adjacent .. n_adjacent])
                          re_frags))"

definition remove_multicapture_reporters :: "int \<Rightarrow> slice_row list \<Rightarrow> error + slice_row list" where
  "remove_multicapture_reporters n_adjacent slices =
     (let re_frags = unique_first (map restriction_fragment (captures slices))
      in case excluded_fragments n_adjacent re_frags of
           Inl e \<Rightarrow> Inl e
         | Inr excluded \<Rightarrow>
             Inr (filter (\<lambda>s. capture_count s > 0 \<or> \<not> restriction_fragment s \<in> set excluded)
                    slices))"

definition remove_slices_with_one_reporter :: "slice_row list \<Rightarrow> slice_row list" where
  "remove_slices_with_one_reporter slices =
     (let fragments_triplets = filter (\<lambda>f. reporter_count f > 1) (CC_fragments slices)
      in filter (\<lambda>s. parent_read s \<in> set (map fr_parent_read fragments_triplets)) slices)"

subsection \<open>Operations of TiledCSliceFilter\<close>

definition remove_slices_outside_capture :: "slice_row list \<Rightarrow> slice_row list" where
  "remove_slices_outside_capture slices = filter (\<lambda>s. capture s \<noteq> ''.'') slices"

definition remove_non_capture_fragments :: "slice_row list \<Rightarrow> slice_row list" where
  "remove_non_capture_fragments slices =
     (let fragments_with_capture = filter (\<lambda>f. fr_capture_count f > 0) (TiledC_fragments slices)
      in filter (\<lambda>s. parent_read s \<in> set (map fr_parent_read fragments_with_capture)) slices)"

text \<open>
  \<^verbatim>\<open>remove_dual_capture_fragments\<close>. \<open>multicapture_fragments\<close> is the boolean Series
  indexed by the parent reads that have a capture slice. \<^verbatim>\<open>.loc\<close> aligns it with the
  table indexed by parent read and raises \<^verbatim>\<open>IndexingError\<close> when a parent read of the
  table is not in the index of the Series; otherwise the rows whose entry is False stay.
  The Series is only looked up by key, so the order of its entries plays no role.
\<close>

definition multicapture_fragments :: "slice_row list \<Rightarrow> (string \<times> bool) list" where
  "multicapture_fragments slices =
     map (\<lambda>(k, g). (k, nunique (map capture g) > 1))
       (groupby_parent_read (filter (\<lambda>s. capture s \<noteq> ''.'') slices))"

definition remove_dual_capture_fragments :: "slice_row list \<Rightarrow> error + slice_row list" where
  "remove_dual_capture_fragments slices =
     (let mask = multicapture_fragments slices
      in if list_all (\<lambda>s. parent_read s \<in> set (map fst mask)) slices
         then Inr (filter (\<lambda>s. map_of mask (parent_read s) = Some False) slices)
         else Inl IndexingError)"

subsection \<open>Slice statistics\<close>

record stats =
  st_unique_slices :: int
  st_unique_fragments :: int
  st_mapped :: int
  st_multimapping_slices :: int
  st_number_of_capture_slices :: int
  st_number_of_slices_in_blacklisted_region :: int

record cc_stats = stats +
  st_unique_capture_sites :: int
  st_number_of_slices_in_exclusion_region :: int

text \<open>The aggregation \<^verbatim>\<open>lambda col: (col > 0).sum()\<close>.\<close>

definition count_positive :: "int list \<Rightarrow> int" where
  "count_positive col = int (length (filter (\<lambda>x. x > 0) col))"

text \<open>
  The column \<^verbatim>\<open>np.zeros((10,))\<close>. Assigning it to a column of a frame without rows
  gives the frame ten rows, so after the loop over the columns of an empty table every
  column is this one.
\<close>

definition zero_column :: "int list" where
  "zero_column = replicate 10 0"

definition CC_slice_stats :: "slice_row list \<Rightarrow> cc_stats" where
  "CC_slice_stats slices =
     (if slices = [] then
        \<lparr> st_unique_slices = nunique zero_column,
          st_unique_fragments = nunique zero_column,
          st_mapped = sum_list zero_column,
          st_multimapping_slices = sum_list zero_column,
          st_number_of_capture_slices = count_positive zero_column,
          st_number_of_slices_in_blacklisted_region = sum_list zero_column,
          st_unique_capture_sites = nunique zero_column,
          st_number_of_slices_in_exclusion_region = count_positive zero_column \<rparr>
      else
        \<lparr> st_unique_slices = nunique (map slice_name slices),
          st_unique_fragments = nunique (map parent_read slices),
          st_mapped = sum_list (map mapped slices),
          st_multimapping_slices = sum_list (map multimapped slices),
          st_number_of_capture_slices = count_positive (map capture_count slices),
          st_number_of_slices_in_blacklisted_region = sum_list (map blacklist slices),
          st_unique_capture_sites = nunique (map capture slices),
          st_number_of_slices_in_exclusion_region =
            count_positive (map exclusion_count slices) \<rparr>)"

text \<open>
  \<^verbatim>\<open>TiledCSliceFilter.slice_stats\<close> has no guard for the empty table: there the
  aggregation of pandas raises \<^verbatim>\<open>ValueError\<close> (with a message of pandas, which is
  not modelled).
\<close>

definition TiledC_slice_stats :: "slice_row list \<Rightarrow> error + stats" where
  "TiledC_slice_stats slices =
     (if slices = [] then Inl (ValueError [])
      else
        Inr \<lparr> st_unique_slices = nunique (map slice_name slices),
              st_unique_fragments = nunique (map parent_read slices),
              st_mapped = sum_list (map mapped slices),
              st_multimapping_slices = sum_list (map multimapped slices),
              st_number_of_capture_slices = count_positive (map capture_count slices),
              st_number_of_slices_in_blacklisted_region = sum_list (map blacklist slices) \<rparr>)"

subsection \<open>The stage executor\<close>

text \<open>
  \<^verbatim>\<open>getattr(self, filt)()\<close> looks the operation up by name in the class. The tables
  below list the filter operations each class defines or inherits; a name that is not in
  the table raises \<^verbatim>\<open>AttributeError\<close>. \<^verbatim>\<open>remove_multicapture_reporters\<close> is called
  without argument, so with its default \<^verbatim>\<open>n_adjacent = 1\<close>.
\<close>

type_synonym filter_method = "slice_row list \<Rightarrow> error + slice_row list"

definition base_methods ::
  "(slice_row list \<Rightarrow> 'a fragment_scheme list)
     \<Rightarrow> ('a fragment_scheme list \<Rightarrow> 'a fragment_scheme list)
     \<Rightarrow> (string \<times> filter_method) list"
where
  "base_methods fragments shuffle =
     [(''get_raw_slices'', \<lambda>t. Inr (get_raw_slices t)),
      (''remove_unmapped_slices'', \<lambda>t. Inr (remove_unmapped_slices t)),
      (''remove_orphan_slices'', \<lambda>t. Inr (remove_orphan_slices fragments t)),
      (''remove_duplicate_re_frags'', \<lambda>t. Inr (remove_duplicate_re_frags t)),
      (''remove_slices_without_re_frag_assigned'',
         \<lambda>t. Inr (remove_slices_without_re_frag_assigned t)),
      (''remove_duplicate_slices'', \<lambda>t. Inr (remove_duplicate_slices fragments shuffle t)),
      (''remove_duplicate_slices_pe'', \<lambda>t. Inr (remove_duplicate_slices_pe fragments t)),
      (''remove_excluded_slices'', \<lambda>t. Inr (remove_excluded_slices t)),
      (''remove_blacklisted_slices'', \<lambda>t. Inr (remove_blacklisted_slices t))]"

definition CC_methods ::
  "(cc_fragment list \<Rightarrow> cc_fragment list) \<Rightarrow> (string \<times> filter_method) list"
where
  "CC_methods shuffle =
     base_methods CC_fragments shuffle @
     [(''remove_non_reporter_fragments'', \<lambda>t. Inr (remove_non_reporter_fragments t)),
      (''remove_multi_capture_fragments'', \<lambda>t. Inr (remove_multi_capture_fragments t)),
      (''remove_multicapture_reporters'', \<lambda>t. remove_multicapture_reporters 1 t)]"

definition TriC_methods ::
  "(cc_fragment list \<Rightarrow> cc_fragment list) \<Rightarrow> (string \<times> filter_method) list"
where
  "TriC_methods shuffle =
     CC_methods shuffle @
     [(''remove_slices_with_one_reporter'', \<lambda>t. Inr (remove_slices_with_one_reporter t))]"

definition TiledC_methods ::
  "(fragment list \<Rightarrow> fragment list) \<Rightarrow> (string \<times> filter_method) list"
where
  "TiledC_methods shuffle =
     base_methods TiledC_fragments shuffle @
     [(''remove_slices_outside_capture'', \<lambda>t. Inr (remove_slices_outside_capture t)),
      (''remove_non_capture_fragments'', \<lambda>t. Inr (remove_non_capture_fragments t)),
      (''remove_dual_capture_fragments'', \<lambda>t. remove_dual_capture_fragments t)]"

text \<open>
  One call \<^verbatim>\<open>getattr(self, filt)()\<close>: the table the object holds afterwards. An
  operation that raises has not assigned \<^verbatim>\<open>self.slices\<close>.
\<close>

definition call_filter :: "(string \<times> filter_method) list \<Rightarrow> string \<Rightarrow> filter_method" where
  "call_filter methods filt t =
     (case map_of methods filt of None \<Rightarrow> Inl AttributeError | Some m \<Rightarrow> m t)"

definition slices_after :: "(string \<times> filter_method) list \<Rightarrow> string \<Rightarrow> slice_row list \<Rightarrow> slice_row list" where
  "slices_after methods filt t =
     (case call_filter methods filt t of Inl e \<Rightarrow> t | Inr t' \<Rightarrow> t')"

fun call_filters :: "(string \<times> filter_method) list \<Rightarrow> string list \<Rightarrow> filter_method" where
  "call_filters methods [] t = Inr t"
| "call_filters methods (filt # filters) t =
     (case call_filter methods filt t of
        Inl e \<Rightarrow> Inl e
      | Inr t' \<Rightarrow> call_filters methods filters t')"

text \<open>
  The loop of \<^verbatim>\<open>filter_slices\<close> over the stages (without the optional writing of
  files): the filters of a stage in order, then the statistics of the stage.
  \<open>slice_stats\<close> is the property of the class at hand; when it raises, so does the
  loop. The stage names are the keys of a dict, hence distinct, so recording a stage
  appends an entry.
\<close>

fun run_stages ::
  "(string \<times> filter_method) list \<Rightarrow> (slice_row list \<Rightarrow> error + 'st)
     \<Rightarrow> (string \<times> string list) list \<Rightarrow> 'st slice_filter \<Rightarrow> error + 'st slice_filter"
where
  "run_stages methods slice_stats [] self = Inr self"
| "run_stages methods slice_stats ((stage, filters) # rest) self =
     (case call_filters methods filters (self_slices self) of
        Inl e \<Rightarrow> Inl e
      | Inr t \<Rightarrow>
          (case slice_stats t of
             Inl e \<Rightarrow> Inl e
           | Inr st \<Rightarrow>
               run_stages methods slice_stats rest
                 (self\<lparr> self_slices := t,
                        self_filter_stats := self_filter_stats self @ [(stage, st)] \<rparr>)))"

definition filter_slices ::
  "(string \<times> filter_method) list \<Rightarrow> (slice_row list \<Rightarrow> error + 'st)
     \<Rightarrow> 'st slice_filter \<Rightarrow> error + 'st slice_filter"
where
  "filter_slices methods slice_stats self =
     run_stages methods slice_stats (self_filter_stages self) self"

subsection \<open>Example tables\<close>

text \<open>
  A mapped slice outside exclusion and blacklist regions; the arguments are the columns
  that vary between the examples.
\<close>

definition mk_slice ::
  "string \<Rightarrow> string \<Rightarrow> string \<Rightarrow> int \<Rightarrow> string \<Rightarrow> int \<Rightarrow> int \<Rightarrow> string \<Rightarrow> string \<Rightarrow> int \<Rightarrow> cell
     \<Rightarrow> slice_row"
where
  "mk_slice name read flash n chr st en coords cap capn rf =
     \<lparr> slice_name = name, parent_read = read, pe = flash, mapped = 1, multimapped = 0,
       slice = n, chrom = chr, start = st, end' = en, capture = cap, capture_count = capn,
       exclusion = ''.'', exclusion_count = 0, blacklist = 0, restriction_fragment = rf,
       coordinates = coords \<rparr>"

text \<open>A read whose first slice maps downstream of its second slice.\<close>

definition slice_A0 :: slice_row where
  "slice_A0 = mk_slice ''A|0'' ''A'' ''unflashed'' 0 ''chr1'' 2000 2100 ''chr1:2000-2100''
                ''.'' 0 (IntV 7)"

definition slice_A1 :: slice_row where
  "slice_A1 = mk_slice ''A|1'' ''A'' ''unflashed'' 1 ''chr1'' 1000 1100 ''chr1:1000-1100''
                ''Slc25A37'' 1 (IntV 3)"

text \<open>A read whose slices map in slice order.\<close>

definition slice_B0 :: slice_row where
  "slice_B0 = mk_slice ''B|0'' ''B'' ''unflashed'' 0 ''chr1'' 1000 1500 ''chr1:1000-1500''
                ''Slc25A37'' 1 (IntV 3)"


text \<open>The header of a table with the sixteen columns of a slice.\<close>

definition all_columns :: "string list" where
  "all_columns =
     [''slice_name'', ''parent_read'', ''pe'', ''mapped'', ''multimapped'', ''slice'',
      ''chrom'', ''start'', ''end'', ''capture'', ''capture_count'', ''exclusion'',
      ''exclusion_count'', ''blacklist'', ''restriction_fragment'', ''coordinates'']"

text \<open>Headers of tables that lack one column.\<close>

definition header_without_restriction_fragment :: "string list" where
  "header_without_restriction_fragment =
     [''slice_name'', ''parent_read'', ''pe'', ''mapped'', ''multimapped'', ''slice'',
      ''chrom'', ''start'', ''end'', ''capture'', ''capture_count'', ''exclusion'',
      ''exclusion_count'', ''blacklist'', ''coordinates'']"

definition header_without_chrom :: "string list" where
  "header_without_chrom =
     [''slice_name'', ''parent_read'', ''pe'', ''mapped'', ''multimapped'', ''slice'',
      ''start'', ''end'', ''capture'', ''capture_count'', ''exclusion'',
      ''exclusion_count'', ''blacklist'', ''restriction_fragment'', ''coordinates'']"

text \<open>
  A read with a capture slice and a slice without restriction fragment, and a read
  whose two slices both overlap the capture probe.
\<close>

definition slice_C0 :: slice_row where
  "slice_C0 = mk_slice ''C|0'' ''C'' ''flashed'' 0 ''chr1'' 100 200 ''chr1:100-200''
                ''Slc25A37'' 1 (IntV 3)"

definition slice_C1 :: slice_row where
  "slice_C1 = mk_slice ''C|1'' ''C'' ''flashed'' 1 ''chr1'' 5000 5100 ''chr1:5000-5100''
                ''.'' 0 (StrV ''.'')"

definition slice_D0 :: slice_row where
  "slice_D0 = mk_slice ''D|0'' ''D'' ''flashed'' 0 ''chr1'' 100 200 ''chr1:100-200''
                ''Slc25A37'' 1 (IntV 3)"

definition slice_D1 :: slice_row where
  "slice_D1 = mk_slice ''D|1'' ''D'' ''flashed'' 1 ''chr1'' 300 400 ''chr1:300-400''
                ''Slc25A37'' 1 (IntV 4)"

text \<open>A read with slices on two capture sites.\<close>

definition slice_M0 :: slice_row where
  "slice_M0 = mk_slice ''M|0'' ''M'' ''flashed'' 0 ''chr1'' 100 200 ''chr1:100-200''
                ''Slc25A37'' 1 (IntV 3)"

definition slice_M1 :: slice_row where
  "slice_M1 = mk_slice ''M|1'' ''M'' ''flashed'' 1 ''chr2'' 700 800 ''chr2:700-800''
                ''Hba'' 1 (IntV 90)"

definition slice_M2 :: slice_row where
  "slice_M2 = mk_slice ''M|2'' ''M'' ''flashed'' 2 ''chr1'' 9000 9100 ''chr1:9000-9100''
                ''.'' 0 (IntV 40)"

text \<open>A read with the same coordinates as read C.\<close>

definition slice_P0 :: slice_row where
  "slice_P0 = mk_slice ''P|0'' ''P'' ''flashed'' 0 ''chr1'' 100 200 ''chr1:100-200''
                ''Slc25A37'' 1 (IntV 3)"

definition slice_P1 :: slice_row where
  "slice_P1 = mk_slice ''P|1'' ''P'' ''flashed'' 1 ''chr1'' 5000 5100 ''chr1:5000-5100''
                ''.'' 0 (IntV 33)"

text \<open>
  A read with a capture slice on restriction fragment 100 and reporters on the fragments
  101 and 103, and a read whose capture slice has no restriction fragment assigned.
\<close>

definition slice_X0 :: slice_row where
  "slice_X0 = mk_slice ''X|0'' ''X'' ''flashed'' 0 ''chr1'' 100 200 ''chr1:100-200''
                ''Slc25A37'' 1 (IntV 100)"

definition slice_X1 :: slice_row where
  "slice_X1 = mk_slice ''X|1'' ''X'' ''flashed'' 1 ''chr1'' 300 400 ''chr1:300-400''
                ''.'' 0 (IntV 101)"

definition slice_X2 :: slice_row where
  "slice_X2 = mk_slice ''X|2'' ''X'' ''flashed'' 2 ''chr1'' 900 950 ''chr1:900-950''
                ''.'' 0 (IntV 103)"

definition slice_U0 :: slice_row where
  "slice_U0 = mk_slice ''U|0'' ''U'' ''flashed'' 0 ''chr1'' 100 200 ''chr1:100-200''
                ''Slc25A37'' 1 (StrV ''.'')"

definition slice_U1 :: slice_row where
  "slice_U1 = mk_slice ''U|1'' ''U'' ''flashed'' 1 ''chr1'' 7000 7100 ''chr1:7000-7100''
                ''.'' 0 (IntV 5)"

text \<open>
  Frag 1 and Frag 4 of the docstring of \<^verbatim>\<open>remove_duplicate_slices\<close>: the same two
  coordinates in opposite slice order.
\<close>

definition frag1_slice0 :: slice_row where
  "frag1_slice0 = mk_slice ''Frag1|0'' ''Frag1'' ''flashed'' 0 ''chr1'' 1000 1250
                    ''chr1:1000-1250'' ''.'' 0 (IntV 1)"

definition frag1_slice1 :: slice_row where
  "frag1_slice1 = mk_slice ''Frag1|1'' ''Frag1'' ''flashed'' 1 ''chr1'' 1500 1750
                    ''chr1:1500-1750'' ''.'' 0 (IntV 2)"

definition frag4_slice0 :: slice_row where
  "frag4_slice0 = mk_slice ''Frag4|0'' ''Frag4'' ''flashed'' 0 ''chr1'' 1500 1750
                    ''chr1:1500-1750'' ''.'' 0 (IntV 2)"

definition frag4_slice1 :: slice_row where
  "frag4_slice1 = mk_slice ''Frag4|1'' ''Frag4'' ''flashed'' 1 ''chr1'' 1000 1250
                    ''chr1:1000-1250'' ''.'' 0 (IntV 1)"



section \<open>Properties\<close>

subsection \<open>Grouping, sorting and duplicates\<close>

lemma set_unique_first: "set (unique_first xs) = set xs"
  by (simp add: unique_first_def)

lemma distinct_unique_first: "distinct (unique_first xs)"
  by (simp add: unique_first_def)

lemma unique_first_filter: "unique_first (filter P xs) = filter P (unique_first xs)"
  by (simp add: unique_first_def rev_filter remdups_filter)

lemma groupby_filter:
  "groupby_parent_read (filter (\<lambda>s. P (parent_read s)) rows) =
     filter (\<lambda>kg. P (fst kg)) (groupby_parent_read rows)"
proof -
  have keys: "map parent_read (filter (\<lambda>s. P (parent_read s)) rows) = filter P (map parent_read rows)"
    by (simp add: filter_map comp_def)
  show ?thesis
    unfolding groupby_parent_read_def keys unique_first_filter
    by (auto simp add: filter_map comp_def intro!: filter_cong)
qed

lemma sort_for_fragments_filter:
  "sort_for_fragments (filter Q rows) = filter Q (sort_for_fragments rows)"
  by (simp add: sort_for_fragments_def filter_sort)

lemma set_sort_for_fragments: "set (sort_for_fragments t) = set t"
  by (simp add: sort_for_fragments_def)

text \<open>
  Removing whole parent reads from the table removes their rows from the fragments and
  leaves the other fragment rows as they were.
\<close>

lemma CC_fragments_filter:
  "CC_fragments (filter (\<lambda>s. P (parent_read s)) t) =
     filter (\<lambda>f. P (fr_parent_read f)) (CC_fragments t)"
proof -
  have "fr_parent_read (cc_agg k g) = k" for k g
    by (simp add: cc_agg_def Let_def)
  then show ?thesis
    unfolding CC_fragments_def sort_for_fragments_filter groupby_filter
    by (simp add: filter_map comp_def split_def)
qed

lemma TiledC_fragments_filter:
  "TiledC_fragments (filter (\<lambda>s. P (parent_read s)) t) =
     filter (\<lambda>f. P (fr_parent_read f)) (TiledC_fragments t)"
proof -
  have "fr_parent_read (tiled_agg k g) = k" for k g
    by (simp add: tiled_agg_def)
  then show ?thesis
    unfolding TiledC_fragments_def sort_for_fragments_filter groupby_filter
    by (simp add: filter_map comp_def split_def)
qed

lemma keys_CC_fragments:
  "map fr_parent_read (CC_fragments t) = unique_first (map parent_read (sort_for_fragments t))"
  by (simp add: CC_fragments_def groupby_parent_read_def comp_def cc_agg_def Let_def)

lemma keys_TiledC_fragments:
  "map fr_parent_read (TiledC_fragments t) = unique_first (map parent_read (sort_for_fragments t))"
  by (simp add: TiledC_fragments_def groupby_parent_read_def comp_def tiled_agg_def)

lemma subseq_drop_dups: "subseq (drop_dups key seen xs) xs"
  by (induction xs arbitrary: seen) auto

lemma subseq_dup_rows: "subseq (dup_rows key seen xs) xs"
  by (induction xs arbitrary: seen) auto

lemma keys_drop_dups: "key ` set (drop_dups key seen xs) = key ` set xs - set seen"
  by (induction xs arbitrary: seen) auto

lemma distinct_keys_drop_dups: "distinct (map key (drop_dups key seen xs))"
  by (induction xs arbitrary: seen) (auto simp: keys_drop_dups)

subsection \<open>Every filter operation removes rows only\<close>

lemma slices_after_subseq:
  assumes "\<And>n m t t'. (n, m) \<in> set methods \<Longrightarrow> m t = Inr t' \<Longrightarrow> subseq t' t"
  shows "subseq (slices_after methods filt t) t"
proof (cases "map_of methods filt")
  case None
  then show ?thesis by (simp add: slices_after_def call_filter_def)
next
  case (Some m)
  then have "(filt, m) \<in> set methods" by (rule map_of_SomeD)
  with assms Some show ?thesis
    by (auto simp add: slices_after_def call_filter_def split: sum.splits)
qed

lemma remove_multicapture_reporters_subseq:
  "remove_multicapture_reporters n t = Inr t' \<Longrightarrow> subseq t' t"
  by (auto simp add: remove_multicapture_reporters_def Let_def split: sum.splits)

lemma remove_dual_capture_fragments_subseq:
  "remove_dual_capture_fragments t = Inr t' \<Longrightarrow> subseq t' t"
  by (auto simp add: remove_dual_capture_fragments_def Let_def split: if_splits)

lemma base_methods_subseq:
  "(n, m) \<in> set (base_methods fragments shuffle) \<Longrightarrow> m t = Inr t' \<Longrightarrow> subseq t' t"
  by (auto simp add: base_methods_def get_raw_slices_def remove_unmapped_slices_def
      remove_orphan_slices_def remove_duplicate_re_frags_def drop_duplicates_def
      remove_slices_without_re_frag_assigned_def remove_duplicate_slices_def
      remove_duplicate_slices_pe_def remove_excluded_slices_def remove_blacklisted_slices_def
      Let_def subseq_drop_dups)

lemma CC_methods_subseq:
  "(n, m) \<in> set (CC_methods shuffle) \<Longrightarrow> m t = Inr t' \<Longrightarrow> subseq t' t"
  by (auto simp add: CC_methods_def remove_non_reporter_fragments_def
      remove_multi_capture_fragments_def Let_def
      dest: base_methods_subseq remove_multicapture_reporters_subseq)

lemma TriC_methods_subseq:
  "(n, m) \<in> set (TriC_methods shuffle) \<Longrightarrow> m t = Inr t' \<Longrightarrow> subseq t' t"
  by (auto simp add: TriC_methods_def remove_slices_with_one_reporter_def Let_def
      dest: CC_methods_subseq)

lemma TiledC_methods_subseq:
  "(n, m) \<in> set (TiledC_methods shuffle) \<Longrightarrow> m t = Inr t' \<Longrightarrow> subseq t' t"
  by (auto simp add: TiledC_methods_def remove_slices_outside_capture_def
      remove_non_capture_fragments_def Let_def
      dest: base_methods_subseq remove_dual_capture_fragments_subseq)

lemma subseq_rows:
  "subseq t' t \<Longrightarrow>
     set (map slice_name t') \<subseteq> set (map slice_name t) \<and> set t' \<subseteq> set t \<and> length t' \<le> length t"
proof -
  assume h: "subseq t' t"
  have "set t' \<subseteq> set t"
    using h by (auto elim: list_emb_set)
  moreover have "length t' \<le> length t"
    using h by (rule list_emb_length)
  ultimately show ?thesis by auto
qed

text \<open>
  Claim C6. For each of the three classes, for every operation name, every table and
  every outcome of the shuffle, the table held after the call is a subsequence of the
  table held before it: rows are deleted, the rows that stay are unchanged and keep their
  order. So the slice names after the call are among those before, and the row count
  does not grow. (A call that raises leaves the table as it was.)
\<close>

theorem C6_monotonic_shrinkage:
  "methods \<in> {CC_methods shuffle, TriC_methods shuffle, TiledC_methods shuffle'} \<Longrightarrow>
     subseq (slices_after methods filt t) t \<and>
     set (map slice_name (slices_after methods filt t)) \<subseteq> set (map slice_name t) \<and>
     set (slices_after methods filt t) \<subseteq> set t \<and>
     length (slices_after methods filt t) \<le> length t"
proof -
  assume "methods \<in> {CC_methods shuffle, TriC_methods shuffle, TiledC_methods shuffle'}"
  then have "\<And>n m t t'. (n, m) \<in> set methods \<Longrightarrow> m t = Inr t' \<Longrightarrow> subseq t' t"
    using CC_methods_subseq TriC_methods_subseq TiledC_methods_subseq by blast
  then have "subseq (slices_after methods filt t) t"
    by (rule slices_after_subseq)
  then show ?thesis using subseq_rows by blast
qed

lemma orphan_example:
  "slices_after (CC_methods (\<lambda>fs. fs)) ''remove_orphan_slices'' [slice_A0, slice_A1, slice_B0]
     = [slice_A0, slice_A1]"
  by code_simp

text \<open>
  Witness for C6: removing orphan slices from a table with a two-slice read and a
  one-slice read keeps the two slices of the first read.
\<close>

theorem C6_monotonic_shrinkage_witness:
  "CC_methods (\<lambda>fs. fs)
     \<in> {CC_methods (\<lambda>fs. fs), TriC_methods (\<lambda>fs. fs), TiledC_methods (\<lambda>fs. fs)} \<and>
   slices_after (CC_methods (\<lambda>fs. fs)) ''remove_orphan_slices'' [slice_A0, slice_A1, slice_B0]
     = [slice_A0, slice_A1] \<and>
   subseq [slice_A0, slice_A1] [slice_A0, slice_A1, slice_B0]"
proof -
  have m: "CC_methods (\<lambda>fs. fs)
      \<in> {CC_methods (\<lambda>fs. fs), TriC_methods (\<lambda>fs. fs), TiledC_methods (\<lambda>fs. fs)}"
    by (rule insertI1)
  from C6_monotonic_shrinkage [OF m, of "''remove_orphan_slices''" "[slice_A0, slice_A1, slice_B0]"]
  have "subseq [slice_A0, slice_A1] [slice_A0, slice_A1, slice_B0]"
    unfolding orphan_example by (rule conjunct1)
  with m orphan_example show ?thesis by (intro conjI)
qed

subsection \<open>Order of the joined coordinates\<close>

text \<open>
  Claim C1. The claim says that the joined coordinates of a read follow the slice order
  of the table. The fragments property sorts the rows by parent read, chromosome and
  start before grouping, so the joined string follows the genomic position. For the read
  A, whose slice 0 lies at chr1:2000-2100 and whose slice 1 lies at chr1:1000-1100, the
  table is in (parent_read, slice) order, and both variants return the string
  chr1:1000-1100|chr1:2000-2100: its first element is the coordinates of the last
  slice. The docstring of remove_duplicate_slices takes the slice order to be kept: its
  Frag 4 has the coordinates of Frag 1 in the opposite slice order and is said to be
  retained. Both fragments get the same coordinates string, and one of them is removed.
\<close>

theorem C1_coordinates_follow_position_not_slice_order:
  "sort_key (\<lambda>s. (parent_read s, slice s)) [slice_A0, slice_A1] = [slice_A0, slice_A1] \<and>
   map slice [slice_A0, slice_A1] = [0, 1] \<and>
   map coordinates [slice_A0, slice_A1] = [''chr1:2000-2100'', ''chr1:1000-1100''] \<and>
   map fr_coordinates (CC_fragments [slice_A0, slice_A1])
     = [''chr1:1000-1100|chr1:2000-2100''] \<and>
   map fr_coordinates (TiledC_fragments [slice_A0, slice_A1])
     = [''chr1:1000-1100|chr1:2000-2100''] \<and>
   map coordinates [frag1_slice0, frag1_slice1, frag4_slice0, frag4_slice1]
     = [''chr1:1000-1250'', ''chr1:1500-1750'', ''chr1:1500-1750'', ''chr1:1000-1250''] \<and>
   map fr_coordinates (CC_fragments [frag1_slice0, frag1_slice1, frag4_slice0, frag4_slice1])
     = [''chr1:1000-1250|chr1:1500-1750'', ''chr1:1000-1250|chr1:1500-1750''] \<and>
   remove_duplicate_slices CC_fragments (\<lambda>fs. fs)
       [frag1_slice0, frag1_slice1, frag4_slice0, frag4_slice1]
     = [frag1_slice0, frag1_slice1] \<and>
   remove_duplicate_slices CC_fragments rev
       [frag1_slice0, frag1_slice1, frag4_slice0, frag4_slice1]
     = [frag4_slice0, frag4_slice1]"
  by code_simp

subsection \<open>Statistics of an empty table\<close>

text \<open>
  Claim C2. The claim says that the slice statistics of a table without rows are all
  zero. CCSliceFilter.slice_stats replaces every column of an empty table by ten zeros
  and then aggregates: the sums and the counts of positive entries are 0, but the number
  of distinct values of a column of zeros is 1. So the statistics report one slice, one
  fragment and one capture site, and the standard pipeline run on the empty table records
  this snapshot for each of its five stages.
\<close>

theorem C2_empty_table_statistics_not_all_zero:
  "CC_slice_stats [] =
     \<lparr> st_unique_slices = 1, st_unique_fragments = 1, st_mapped = 0,
       st_multimapping_slices = 0, st_number_of_capture_slices = 0,
       st_number_of_slices_in_blacklisted_region = 0,
       st_unique_capture_sites = 1, st_number_of_slices_in_exclusion_region = 0 \<rparr> \<and>
   (case CCSliceFilter_init all_columns [] None of
      Inl e \<Rightarrow> False
    | Inr self0 \<Rightarrow>
        (case filter_slices (CC_methods (\<lambda>fs. fs)) (\<lambda>t. Inr (CC_slice_stats t)) self0 of
           Inl e \<Rightarrow> False
         | Inr self \<Rightarrow>
             self_slices self = [] \<and>
             map fst (self_filter_stats self) = map fst CC_default_stages \<and>
             map (st_unique_slices \<circ> snd) (self_filter_stats self) = [1, 1, 1, 1, 1] \<and>
             map (st_unique_fragments \<circ> snd) (self_filter_stats self) = [1, 1, 1, 1, 1] \<and>
             map (st_unique_capture_sites \<circ> snd) (self_filter_stats self) = [1, 1, 1, 1, 1]))"
  by code_simp

subsection \<open>The column check of the constructor\<close>

lemma check_columns_first_missing:
  "col \<in> set req \<Longrightarrow> col \<notin> set df_columns \<Longrightarrow>
     \<exists>before c after. req = before @ c # after \<and> set before \<subseteq> set df_columns \<and>
         c \<notin> set df_columns \<and>
         check_columns req df_columns = Inl (KeyError (missing_column_message c))"
proof (induction req)
  case Nil
  then show ?case by simp
next
  case (Cons r req)
  show ?case
  proof (cases "r \<in> set df_columns")
    case False
    then have "r # req = [] @ r # req \<and> set [] \<subseteq> set df_columns \<and> r \<notin> set df_columns \<and>
        check_columns (r # req) df_columns = Inl (KeyError (missing_column_message r))"
      by simp
    then show ?thesis by blast
  next
    case True
    with Cons.prems have "col \<in> set req" by auto
    from Cons.IH [OF this Cons.prems(2)] obtain before c after where
      c: "req = before @ c # after" "set before \<subseteq> set df_columns" "c \<notin> set df_columns"
         "check_columns req df_columns = Inl (KeyError (missing_column_message c))"
      by blast
    with True have "r # req = (r # before) @ c # after \<and> set (r # before) \<subseteq> set df_columns \<and>
        c \<notin> set df_columns \<and>
        check_columns (r # req) df_columns = Inl (KeyError (missing_column_message c))"
      by simp
    then show ?thesis by blast
  qed
qed

lemma init_column_error:
  assumes "check_required_columns_present df_columns = Inl e"
  shows "SliceFilter_init df_columns rows stages = Inl e"
    and "CCSliceFilter_init df_columns rows stages = Inl e"
    and "TriCSliceFilter_init df_columns rows stages = Inl e"
    and "TiledCSliceFilter_init df_columns rows stages = Inl e"
  using assms
  by (simp_all add: SliceFilter_init_def CCSliceFilter_init_def TriCSliceFilter_init_def
      TiledCSliceFilter_init_def)

text \<open>
  Claim C3, as stated, fails: the constructor checks fourteen column names, and
  restriction_fragment is not among them (nor is it in the list of the constructor's
  docstring). A table with every column but restriction_fragment passes the check, and
  each of the three classes is constructed from it.
\<close>

theorem C3_missing_restriction_fragment_accepted:
  "''restriction_fragment'' \<notin> set header_without_restriction_fragment \<and>
   check_required_columns_present header_without_restriction_fragment = Inr () \<and>
   CCSliceFilter_init header_without_restriction_fragment [] None
     = (Inr \<lparr> self_slices = [], self_filter_stages = CC_default_stages, self_filter_stats = [] \<rparr>
         :: error + cc_stats slice_filter) \<and>
   TriCSliceFilter_init header_without_restriction_fragment [] None
     = (Inr \<lparr> self_slices = [], self_filter_stages = TriC_default_stages, self_filter_stats = [] \<rparr>
         :: error + cc_stats slice_filter) \<and>
   TiledCSliceFilter_init header_without_restriction_fragment [] None
     = (Inr \<lparr> self_slices = [], self_filter_stages = TiledC_default_stages, self_filter_stats = [] \<rparr>
         :: error + stats slice_filter)"
  by code_simp

text \<open>
  Claim C3, amended. For every column \<open>col\<close> that the constructor checks: when the table
  lacks \<open>col\<close>, the constructor of each of the three classes fails with a KeyError
  whose message names the first checked column \<open>c\<close> that the table lacks: the checked
  columns \<open>before\<close> it in the order of the check are all in the table. So \<open>c\<close> is
  \<open>col\<close> itself when \<open>col\<close> is the only checked column missing.
\<close>

theorem C3_missing_checked_column_named:
  assumes "col \<in> set columns_required" and "col \<notin> set df_columns"
  shows "\<exists>before c after.
           columns_required = before @ c # after \<and> set before \<subseteq> set df_columns \<and>
           c \<in> set columns_required \<and> c \<notin> set df_columns \<and>
           ((\<forall>c' \<in> set columns_required. c' \<noteq> col \<longrightarrow> c' \<in> set df_columns) \<longrightarrow> c = col) \<and>
           CCSliceFilter_init df_columns rows stages
             = (Inl (KeyError (missing_column_message c)) :: error + cc_stats slice_filter) \<and>
           TriCSliceFilter_init df_columns rows stages
             = (Inl (KeyError (missing_column_message c)) :: error + cc_stats slice_filter) \<and>
           TiledCSliceFilter_init df_columns rows stages
             = (Inl (KeyError (missing_column_message c)) :: error + stats slice_filter)"
proof -
  from check_columns_first_missing [OF assms] obtain before c after where
    c: "columns_required = before @ c # after" "set before \<subseteq> set df_columns"
       "c \<notin> set df_columns"
       "check_required_columns_present df_columns = Inl (KeyError (missing_column_message c))"
    unfolding check_required_columns_present_def by blast
  have mem: "c \<in> set columns_required" by (subst c(1)) simp
  have only: "(\<forall>c' \<in> set columns_required. c' \<noteq> col \<longrightarrow> c' \<in> set df_columns) \<longrightarrow> c = col"
    using mem c(3) by blast
  from init_column_error [OF c(4)] c(1,2,3) mem only show ?thesis by blast
qed

text \<open>
  Witness for C3: a table without the column chrom; a table without any column is
  refused for slice_name, the first column of the check.
\<close>

theorem C3_missing_checked_column_named_witness:
  "''chrom'' \<in> set columns_required \<and> ''chrom'' \<notin> set header_without_chrom \<and>
   CCSliceFilter_init header_without_chrom [] None
     = (Inl (KeyError (missing_column_message ''chrom'')) :: error + cc_stats slice_filter) \<and>
   missing_column_message ''chrom''
     = ''Required column '' @ [CHR 0x22] @ ''chrom'' @ [CHR 0x22] @ '' not in slices dataframe'' \<and>
   CCSliceFilter_init [] [] None
     = (Inl (KeyError (missing_column_message ''slice_name'')) :: error + cc_stats slice_filter)"
proof -
  have a: "''chrom'' \<in> set columns_required" by code_simp
  have b: "''chrom'' \<notin> set header_without_chrom" by code_simp
  have o: "\<forall>c' \<in> set columns_required. c' \<noteq> ''chrom'' \<longrightarrow> c' \<in> set header_without_chrom"
    by code_simp
  have msg: "missing_column_message ''chrom''
     = ''Required column '' @ [CHR 0x22] @ ''chrom'' @ [CHR 0x22] @ '' not in slices dataframe''"
    by (simp add: missing_column_message_def)
  have e: "CCSliceFilter_init [] [] None
     = (Inl (KeyError (missing_column_message ''slice_name'')) :: error + cc_stats slice_filter)"
    by code_simp
  from C3_missing_checked_column_named [OF a b, of "[]" None] o
  have "CCSliceFilter_init header_without_chrom [] None
     = (Inl (KeyError (missing_column_message ''chrom'')) :: error + cc_stats slice_filter)"
    by blast
  with a b msg e show ?thesis by (intro conjI)
qed

subsection \<open>Unique counts of a fragment\<close>

lemma nunique_card: "nunique xs = int (card (set xs))"
  by (simp add: nunique_def length_remdups_card_conv)

lemma group_of_fragment:
  "filter (\<lambda>s. parent_read s = k) (sort_for_fragments t)
     = sort_for_fragments (filter (\<lambda>s. parent_read s = k) t)"
  by (simp add: sort_for_fragments_filter)

lemma CC_fragments_member:
  assumes "f \<in> set (CC_fragments t)"
  shows "f = cc_agg (fr_parent_read f)
               (sort_for_fragments (filter (\<lambda>s. parent_read s = fr_parent_read f) t))"
    and "fr_parent_read f \<in> parent_read ` set t"
proof -
  from assms obtain k where k: "k \<in> set (unique_first (map parent_read (sort_for_fragments t)))"
    and f: "f = cc_agg k (filter (\<lambda>s. parent_read s = k) (sort_for_fragments t))"
    by (auto simp add: CC_fragments_def groupby_parent_read_def)
  have pk: "fr_parent_read f = k"
    by (simp add: f cc_agg_def Let_def)
  show "f = cc_agg (fr_parent_read f)
               (sort_for_fragments (filter (\<lambda>s. parent_read s = fr_parent_read f) t))"
    unfolding pk by (simp add: f group_of_fragment)
  from k show "fr_parent_read f \<in> parent_read ` set t"
    unfolding pk by (simp add: set_unique_first set_sort_for_fragments)
qed

text \<open>
  Claim C5, amended. For every fragment of the standard variant, with \<open>g\<close> the slices of
  its parent read: unique_restriction_fragments is the number of distinct
  restriction_fragment values of \<open>g\<close>, the sentinel included when a slice carries it;
  when a slice of \<open>g\<close> carries the sentinel in the capture column, unique_capture_sites
  is the number of distinct capture values other than the sentinel, and likewise for
  exclusion and unique_exclusion_sites.
\<close>

theorem C5_unique_counts:
  assumes "f \<in> set (CC_fragments t)"
  shows "(let g = filter (\<lambda>s. parent_read s = fr_parent_read f) t in
          unique_restriction_fragments f = int (card (set (map restriction_fragment g))) \<and>
          (''.'' \<in> set (map capture g) \<longrightarrow>
             unique_capture_sites f = int (card (set (map capture g) - {''.''}))) \<and>
          (''.'' \<in> set (map exclusion g) \<longrightarrow>
             unique_exclusion_sites f = int (card (set (map exclusion g) - {''.''}))))"
proof -
  define g where "g = filter (\<lambda>s. parent_read s = fr_parent_read f) t"
  have f: "f = cc_agg (fr_parent_read f) (sort_for_fragments g)"
    unfolding g_def by (rule CC_fragments_member(1) [OF assms])
  have sg: "set (sort_for_fragments g) = set g"
    by (rule set_sort_for_fragments)
  have r: "unique_restriction_fragments f = int (card (set (map restriction_fragment g)))"
    by (subst f) (simp add: cc_agg_def Let_def nunique_card sg)
  have c: "unique_capture_sites f = int (card (set (map capture g))) - 1"
    by (subst f) (simp add: cc_agg_def Let_def nunique_card sg)
  have e: "unique_exclusion_sites f = int (card (set (map exclusion g))) - 1"
    by (subst f) (simp add: cc_agg_def Let_def nunique_card sg)
  have minus: "x \<in> A \<Longrightarrow> finite A \<Longrightarrow> int (card A) - 1 = int (card (A - {x}))"
    for x :: string and A
    by (cases "card A") (auto simp add: card_Diff_singleton)
  show ?thesis
    unfolding Let_def g_def [symmetric]
  proof (intro conjI impI)
    show "unique_restriction_fragments f = int (card (set (map restriction_fragment g)))"
      by (rule r)
  next
    assume "''.'' \<in> set (map capture g)"
    then show "unique_capture_sites f = int (card (set (map capture g) - {''.''}))"
      unfolding c by (rule minus) simp
  next
    assume "''.'' \<in> set (map exclusion g)"
    then show "unique_exclusion_sites f = int (card (set (map exclusion g) - {''.''}))"
      unfolding e by (rule minus) simp
  qed
qed

text \<open>
  Claim C5, as stated, fails. Read C has the restriction fragments 3 and ".", one
  value apart from the sentinel, and unique_restriction_fragments is 2: the column counts
  the sentinel. Read D has two slices on the capture site Slc25A37 and no slice with the
  sentinel, one capture site, and unique_capture_sites is 0: the column is the number of
  distinct values minus one.
\<close>

theorem C5_sentinel_counted_on_example:
  "map fr_parent_read (CC_fragments [slice_C0, slice_C1, slice_D0, slice_D1]) = [''C'', ''D''] \<and>
   map restriction_fragment [slice_C0, slice_C1] = [IntV 3, StrV ''.''] \<and>
   map unique_restriction_fragments (CC_fragments [slice_C0, slice_C1, slice_D0, slice_D1]) = [2, 2] \<and>
   map capture [slice_D0, slice_D1] = [''Slc25A37'', ''Slc25A37''] \<and>
   map unique_capture_sites (CC_fragments [slice_C0, slice_C1, slice_D0, slice_D1]) = [1, 0] \<and>
   int (card (set (map restriction_fragment [slice_C0, slice_C1]) - {StrV ''.''})) = 1 \<and>
   int (card (set (map capture [slice_D0, slice_D1]) - {''.''})) = 1"
  by code_simp

text \<open>Witness for C5: the fragment of read C.\<close>

theorem C5_unique_counts_witness:
  "cc_agg ''C'' [slice_C0, slice_C1] \<in> set (CC_fragments [slice_C0, slice_C1, slice_D0, slice_D1]) \<and>
   ''.'' \<in> set (map capture [slice_C0, slice_C1]) \<and>
   unique_restriction_fragments (cc_agg ''C'' [slice_C0, slice_C1]) = 2 \<and>
   unique_capture_sites (cc_agg ''C'' [slice_C0, slice_C1]) = 1 \<and>
   int (card (set (map capture [slice_C0, slice_C1]) - {''.''})) = 1"
proof -
  have m: "cc_agg ''C'' [slice_C0, slice_C1] \<in> set (CC_fragments [slice_C0, slice_C1, slice_D0, slice_D1])"
    by code_simp
  have g: "filter (\<lambda>s. parent_read s = fr_parent_read (cc_agg ''C'' [slice_C0, slice_C1]))
             [slice_C0, slice_C1, slice_D0, slice_D1] = [slice_C0, slice_C1]"
    by code_simp
  have s: "''.'' \<in> set (map capture [slice_C0, slice_C1])" by code_simp
  have c1: "int (card (set (map capture [slice_C0, slice_C1]) - {''.''})) = 1" by code_simp
  have c2: "int (card (set (map restriction_fragment [slice_C0, slice_C1]))) = 2" by code_simp
  from C5_unique_counts [OF m]
  have r: "unique_restriction_fragments (cc_agg ''C'' [slice_C0, slice_C1])
             = int (card (set (map restriction_fragment [slice_C0, slice_C1])))"
    and c: "''.'' \<in> set (map capture [slice_C0, slice_C1]) \<longrightarrow>
             unique_capture_sites (cc_agg ''C'' [slice_C0, slice_C1])
               = int (card (set (map capture [slice_C0, slice_C1]) - {''.''}))"
    unfolding Let_def g by blast+
  from c s have "unique_capture_sites (cc_agg ''C'' [slice_C0, slice_C1])
               = int (card (set (map capture [slice_C0, slice_C1]) - {''.''}))"
    by (rule mp)
  then have c': "unique_capture_sites (cc_agg ''C'' [slice_C0, slice_C1]) = 1"
    unfolding c1 .
  from r have r': "unique_restriction_fragments (cc_agg ''C'' [slice_C0, slice_C1]) = 2"
    unfolding c2 .
  from m s r' c' c1 show ?thesis by (intro conjI)
qed

subsection \<open>Removal of fragments with several capture sites\<close>

lemma distinct_keys_CC_fragments: "distinct (map fr_parent_read (CC_fragments t))"
  by (simp add: keys_CC_fragments distinct_unique_first)

lemma distinct_keys_TiledC_fragments: "distinct (map fr_parent_read (TiledC_fragments t))"
  by (simp add: keys_TiledC_fragments distinct_unique_first)

lemma same_key_same_row:
  "distinct (map key xs) \<Longrightarrow> x \<in> set xs \<Longrightarrow> y \<in> set xs \<Longrightarrow> key x = key y \<Longrightarrow> x = y"
  by (auto simp add: distinct_map dest: inj_onD)

text \<open>Keeping the slices of the fragments that satisfy Q keeps exactly those fragments.\<close>

lemma CC_fragments_keep:
  "CC_fragments (filter (\<lambda>s. parent_read s \<in> set (map fr_parent_read (filter Q (CC_fragments t)))) t)
     = filter Q (CC_fragments t)"
proof -
  have "filter (\<lambda>f. fr_parent_read f \<in> set (map fr_parent_read (filter Q (CC_fragments t)))) (CC_fragments t)
          = filter Q (CC_fragments t)"
  proof (rule filter_cong [OF refl])
    fix f assume f: "f \<in> set (CC_fragments t)"
    show "(fr_parent_read f \<in> set (map fr_parent_read (filter Q (CC_fragments t)))) = Q f"
    proof
      assume "fr_parent_read f \<in> set (map fr_parent_read (filter Q (CC_fragments t)))"
      then obtain f' where f': "f' \<in> set (CC_fragments t)" "Q f'" "fr_parent_read f' = fr_parent_read f"
        by auto
      from same_key_same_row [OF distinct_keys_CC_fragments f'(1) f f'(3)] f'(2) show "Q f" by simp
    next
      assume "Q f" with f show "fr_parent_read f \<in> set (map fr_parent_read (filter Q (CC_fragments t)))"
        by auto
    qed
  qed
  then show ?thesis
    using CC_fragments_filter
      [of "\<lambda>p. p \<in> set (map fr_parent_read (filter Q (CC_fragments t)))" t]
    by simp
qed

lemma map_of_mask:
  "map_of (map (\<lambda>(k, g). (k, h g)) (groupby_parent_read rows)) p
     = (if p \<in> parent_read ` set rows then Some (h (filter (\<lambda>s. parent_read s = p) rows)) else None)"
proof -
  have "map (\<lambda>(k, g). (k, h g)) (groupby_parent_read rows)
          = map (\<lambda>k. (k, h (filter (\<lambda>s. parent_read s = k) rows))) (unique_first (map parent_read rows))"
    by (simp add: groupby_parent_read_def comp_def)
  then show ?thesis
    by (simp add: map_of_map_restrict restrict_map_def set_unique_first)
qed

lemma keys_mask:
  "set (map fst (multicapture_fragments t)) = parent_read ` {s \<in> set t. capture s \<noteq> ''.''}"
  by (auto simp add: multicapture_fragments_def groupby_parent_read_def set_unique_first comp_def split_def image_iff)

lemma remove_dual_capture_fragments_result:
  "remove_dual_capture_fragments t =
     (if \<forall>s \<in> set t. \<exists>c \<in> set t. parent_read c = parent_read s \<and> capture c \<noteq> ''.''
      then Inr (filter (\<lambda>s. \<not> nunique (map capture (filter (\<lambda>c. parent_read c = parent_read s)
                                   (filter (\<lambda>c. capture c \<noteq> ''.'') t))) > 1) t)
      else Inl IndexingError)"
proof -
  have all: "list_all (\<lambda>s. parent_read s \<in> set (map fst (multicapture_fragments t))) t
        \<longleftrightarrow> (\<forall>s \<in> set t. \<exists>c \<in> set t. parent_read c = parent_read s \<and> capture c \<noteq> ''.'')"
    unfolding keys_mask by (auto simp add: list_all_iff image_iff) metis+
  show ?thesis
  proof (cases "\<forall>s \<in> set t. \<exists>c \<in> set t. parent_read c = parent_read s \<and> capture c \<noteq> ''.''")
    case False
    with all show ?thesis by (simp add: remove_dual_capture_fragments_def Let_def)
  next
    case True
    have "filter (\<lambda>s. map_of (multicapture_fragments t) (parent_read s) = Some False) t
        = filter (\<lambda>s. \<not> nunique (map capture (filter (\<lambda>c. parent_read c = parent_read s)
                                   (filter (\<lambda>c. capture c \<noteq> ''.'') t))) > 1) t"
    proof (rule filter_cong [OF refl])
      fix s assume "s \<in> set t"
      with True have "parent_read s \<in> parent_read ` set (filter (\<lambda>c. capture c \<noteq> ''.'') t)"
        by (auto simp add: image_iff) metis
      then show "(map_of (multicapture_fragments t) (parent_read s) = Some False)
          = (\<not> nunique (map capture (filter (\<lambda>c. parent_read c = parent_read s)
                                   (filter (\<lambda>c. capture c \<noteq> ''.'') t))) > 1)"
        unfolding multicapture_fragments_def map_of_mask by simp
    qed
    with True all show ?thesis by (simp add: remove_dual_capture_fragments_def Let_def)
  qed
qed


lemma remove_multi_capture_fragments_fragments:
  "CC_fragments (remove_multi_capture_fragments t)
     = filter (\<lambda>f. unique_capture_sites f = 1) (CC_fragments t)"
proof -
  have "CC_fragments (remove_multi_capture_fragments t)
      = filter (\<lambda>f. 0 < unique_capture_sites f \<and> unique_capture_sites f < 2) (CC_fragments t)"
    unfolding remove_multi_capture_fragments_def Let_def by (rule CC_fragments_keep)
  also have "\<dots> = filter (\<lambda>f. unique_capture_sites f = 1) (CC_fragments t)"
    by (rule filter_cong) auto
  finally show ?thesis .
qed

lemma nunique_pos: "xs \<noteq> [] \<Longrightarrow> nunique xs \<ge> 1"
  by (cases "remdups xs") (auto simp add: nunique_def)

lemma remove_dual_capture_fragments_count:
  assumes "remove_dual_capture_fragments t = Inr t'" and "s \<in> set t'"
  shows "nunique (map capture (filter (\<lambda>c. parent_read c = parent_read s \<and> capture c \<noteq> ''.'') t')) = 1"
proof -
  let ?N = "\<lambda>p. nunique (map capture (filter (\<lambda>c. parent_read c = p) (filter (\<lambda>c. capture c \<noteq> ''.'') t)))"
  from assms(1) have ok: "\<forall>s \<in> set t. \<exists>c \<in> set t. parent_read c = parent_read s \<and> capture c \<noteq> ''.''"
    and t': "t' = filter (\<lambda>s. \<not> ?N (parent_read s) > 1) t"
    unfolding remove_dual_capture_fragments_result by (auto split: if_splits)
  from assms(2) t' have s: "s \<in> set t" "\<not> ?N (parent_read s) > 1" by auto
  from ok s(1) obtain c where c: "c \<in> set t" "parent_read c = parent_read s" "capture c \<noteq> ''.''"
    by blast
  then have "map capture (filter (\<lambda>c. parent_read c = parent_read s) (filter (\<lambda>c. capture c \<noteq> ''.'') t)) \<noteq> []"
    by (auto simp add: filter_empty_conv)
  then have "?N (parent_read s) \<ge> 1" by (rule nunique_pos)
  with s(2) have one: "?N (parent_read s) = 1" by simp
  have "filter (\<lambda>c. parent_read c = parent_read s \<and> capture c \<noteq> ''.'') t'
      = filter (\<lambda>c. parent_read c = parent_read s) (filter (\<lambda>c. capture c \<noteq> ''.'') t)"
    unfolding t' using s(2) by (auto intro!: filter_cong)
  with one show ?thesis by simp
qed

text \<open>
  Claim C9. The claim says that after the removal every fragment left has exactly one
  capture site. remove_multi_capture_fragments keeps the fragments whose column
  unique_capture_sites is 1, and that column is the number of distinct capture values
  minus one (see C5). Read M here has two slices, on the capture sites Slc25A37 and Hba,
  and no slice with the sentinel: the column is 1 and the operation keeps the read with
  its two capture sites, against its docstring (all slices are removed if more than one
  capture probe is present). The table reaches the operation unchanged in the standard
  pipeline. The operation of the tiled variant counts the distinct capture values of the
  capture slices and removes the read.
\<close>

theorem C9_two_capture_sites_kept:
  "call_filters (CC_methods (\<lambda>fs. fs))
     [''get_raw_slices'', ''remove_unmapped_slices'', ''remove_orphan_slices'']
     [slice_M0, slice_M1] = Inr [slice_M0, slice_M1] \<and>
   map capture [slice_M0, slice_M1] = [''Slc25A37'', ''Hba''] \<and>
   int (card (set (map capture [slice_M0, slice_M1]) - {''.''})) = 2 \<and>
   map unique_capture_sites (CC_fragments [slice_M0, slice_M1]) = [1] \<and>
   remove_multi_capture_fragments [slice_M0, slice_M1] = [slice_M0, slice_M1] \<and>
   map unique_capture_sites (CC_fragments (remove_multi_capture_fragments [slice_M0, slice_M1]))
     = [1] \<and>
   remove_dual_capture_fragments [slice_M0, slice_M1] = Inr []"
  by code_simp

subsection \<open>Removal of duplicate fragments\<close>

lemma dedup_survivors:
  fixes fragments :: "slice_row list \<Rightarrow> 'a fragment_scheme list"
  assumes d: "\<And>t. distinct (map fr_parent_read (fragments t))"
    and c: "\<And>P t. fragments (filter (\<lambda>s. P (parent_read s)) t)
                     = filter (\<lambda>f. P (fr_parent_read f)) (fragments t)"
    and perm: "mset (shuffle (fragments t)) = mset (fragments t)"
  shows "set (fragments (remove_duplicate_slices fragments shuffle t)) \<subseteq> set (fragments t) \<and>
         (\<forall>co \<in> fr_coordinates ` set (fragments t).
            \<exists>!f. f \<in> set (fragments (remove_duplicate_slices fragments shuffle t)) \<and>
                 fr_coordinates f = co) \<and>
         remove_duplicate_slices fragments shuffle t
           = filter (\<lambda>s. parent_read s \<in>
                fr_parent_read ` set (fragments (remove_duplicate_slices fragments shuffle t))) t"
proof -
  define kept where "kept = drop_duplicates fr_coordinates (shuffle (fragments t))"
  define t' where "t' = remove_duplicate_slices fragments shuffle t"
  have t'_eq: "t' = filter (\<lambda>s. parent_read s \<in> set (map fr_parent_read kept)) t"
    by (simp add: t'_def remove_duplicate_slices_def kept_def Let_def)
  have sh: "set (shuffle (fragments t)) = set (fragments t)"
    using perm by (rule mset_eq_setD)
  have kept_sub: "set kept \<subseteq> set (fragments t)"
    using subseq_drop_dups [of fr_coordinates "[]" "shuffle (fragments t)"] sh
    unfolding kept_def drop_duplicates_def by (auto elim: list_emb_set)
  have kept_keys: "fr_coordinates ` set kept = fr_coordinates ` set (fragments t)"
    unfolding kept_def drop_duplicates_def keys_drop_dups sh by simp
  have kept_distinct: "distinct (map fr_coordinates kept)"
    unfolding kept_def drop_duplicates_def by (rule distinct_keys_drop_dups)
  have fr': "fragments t' = filter (\<lambda>f. fr_parent_read f \<in> set (map fr_parent_read kept)) (fragments t)"
    unfolding t'_eq using c [of "\<lambda>p. p \<in> set (map fr_parent_read kept)" t] by simp
  have mem: "fr_parent_read f \<in> set (map fr_parent_read kept) \<longleftrightarrow> f \<in> set kept"
    if f: "f \<in> set (fragments t)" for f
  proof
    assume "fr_parent_read f \<in> set (map fr_parent_read kept)"
    then obtain f' where f': "f' \<in> set kept" "fr_parent_read f' = fr_parent_read f" by auto
    with kept_sub have "f' \<in> set (fragments t)" by auto
    with d [of t] f f'(2) have "f' = f"
      by (auto simp add: distinct_map dest: inj_onD)
    with f'(1) show "f \<in> set kept" by simp
  next
    assume "f \<in> set kept" then show "fr_parent_read f \<in> set (map fr_parent_read kept)" by simp
  qed
  have set': "set (fragments t') = set kept"
    unfolding fr' using mem kept_sub by auto
  have uniq: "\<exists>!f. f \<in> set kept \<and> fr_coordinates f = co"
    if co: "co \<in> fr_coordinates ` set (fragments t)" for co
  proof -
    from co have "co \<in> fr_coordinates ` set kept" unfolding kept_keys .
    then obtain f where f: "f \<in> set kept" "fr_coordinates f = co" by auto
    show ?thesis
    proof (rule ex1I [of _ f])
      show "f \<in> set kept \<and> fr_coordinates f = co" using f by simp
    next
      fix g assume "g \<in> set kept \<and> fr_coordinates g = co"
      with f kept_distinct show "g = f"
        by (auto simp add: distinct_map dest: inj_onD)
    qed
  qed
  have "set (fragments t') \<subseteq> set (fragments t)"
    unfolding set' by (rule kept_sub)
  moreover have "\<forall>co \<in> fr_coordinates ` set (fragments t).
            \<exists>!f. f \<in> set (fragments t') \<and> fr_coordinates f = co"
    unfolding set' using uniq by blast
  moreover have "t' = filter (\<lambda>s. parent_read s \<in> fr_parent_read ` set (fragments t')) t"
    unfolding set' using t'_eq by simp
  ultimately show ?thesis unfolding t'_def by blast
qed

text \<open>
  Claim C7. For both fragment aggregations and every order \<open>shuffle\<close> of the fragment
  rows that is a permutation of them: the fragments of the table left by
  remove_duplicate_slices are fragments of the table before; for every coordinates
  string of a fragment before, exactly one fragment with that string is left; and the
  slices left are exactly the slices of the table before whose parent read is the parent
  read of a fragment that is left.
\<close>

theorem C7_one_survivor_per_coordinates:
  "(mset (shuffle (CC_fragments t)) = mset (CC_fragments t) \<longrightarrow>
      set (CC_fragments (remove_duplicate_slices CC_fragments shuffle t)) \<subseteq> set (CC_fragments t) \<and>
      (\<forall>co \<in> fr_coordinates ` set (CC_fragments t).
         \<exists>!f. f \<in> set (CC_fragments (remove_duplicate_slices CC_fragments shuffle t)) \<and>
              fr_coordinates f = co) \<and>
      remove_duplicate_slices CC_fragments shuffle t
        = filter (\<lambda>s. parent_read s \<in>
             fr_parent_read ` set (CC_fragments (remove_duplicate_slices CC_fragments shuffle t))) t) \<and>
   (mset (shuffle' (TiledC_fragments t)) = mset (TiledC_fragments t) \<longrightarrow>
      set (TiledC_fragments (remove_duplicate_slices TiledC_fragments shuffle' t))
        \<subseteq> set (TiledC_fragments t) \<and>
      (\<forall>co \<in> fr_coordinates ` set (TiledC_fragments t).
         \<exists>!f. f \<in> set (TiledC_fragments (remove_duplicate_slices TiledC_fragments shuffle' t)) \<and>
              fr_coordinates f = co) \<and>
      remove_duplicate_slices TiledC_fragments shuffle' t
        = filter (\<lambda>s. parent_read s \<in>
             fr_parent_read ` set (TiledC_fragments (remove_duplicate_slices TiledC_fragments shuffle' t))) t)"
proof (intro conjI impI)
  have dc: "\<And>t. distinct (map fr_parent_read (CC_fragments t))"
    by (rule distinct_keys_CC_fragments)
  have dt: "\<And>t. distinct (map fr_parent_read (TiledC_fragments t))"
    by (rule distinct_keys_TiledC_fragments)
  {
    assume p: "mset (shuffle (CC_fragments t)) = mset (CC_fragments t)"
    note r = dedup_survivors [of CC_fragments shuffle t, OF dc CC_fragments_filter p]
    show "set (CC_fragments (remove_duplicate_slices CC_fragments shuffle t)) \<subseteq> set (CC_fragments t)"
      using r by blast
    show "\<forall>co \<in> fr_coordinates ` set (CC_fragments t).
         \<exists>!f. f \<in> set (CC_fragments (remove_duplicate_slices CC_fragments shuffle t)) \<and>
              fr_coordinates f = co"
      using r by blast
    show "remove_duplicate_slices CC_fragments shuffle t
        = filter (\<lambda>s. parent_read s \<in>
             fr_parent_read ` set (CC_fragments (remove_duplicate_slices CC_fragments shuffle t))) t"
      using r by blast
  }
  {
    assume p: "mset (shuffle' (TiledC_fragments t)) = mset (TiledC_fragments t)"
    note r = dedup_survivors [of TiledC_fragments shuffle' t, OF dt TiledC_fragments_filter p]
    show "set (TiledC_fragments (remove_duplicate_slices TiledC_fragments shuffle' t))
        \<subseteq> set (TiledC_fragments t)"
      using r by blast
    show "\<forall>co \<in> fr_coordinates ` set (TiledC_fragments t).
         \<exists>!f. f \<in> set (TiledC_fragments (remove_duplicate_slices TiledC_fragments shuffle' t)) \<and>
              fr_coordinates f = co"
      using r by blast
    show "remove_duplicate_slices TiledC_fragments shuffle' t
        = filter (\<lambda>s. parent_read s \<in>
             fr_parent_read ` set (TiledC_fragments (remove_duplicate_slices TiledC_fragments shuffle' t))) t"
      using r by blast
  }
qed


text \<open>
  Witness for C7: reads C and P have the same coordinates string, read D another one.
  With the fragment rows in reverse order, read P is met first and read C is dropped.
\<close>

theorem C7_one_survivor_per_coordinates_witness:
  "mset (rev (CC_fragments [slice_C0, slice_C1, slice_D0, slice_D1, slice_P0, slice_P1]))
     = mset (CC_fragments [slice_C0, slice_C1, slice_D0, slice_D1, slice_P0, slice_P1]) \<and>
   map fr_coordinates (CC_fragments [slice_C0, slice_C1, slice_D0, slice_D1, slice_P0, slice_P1])
     = [''chr1:100-200|chr1:5000-5100'', ''chr1:100-200|chr1:300-400'',
        ''chr1:100-200|chr1:5000-5100''] \<and>
   remove_duplicate_slices CC_fragments rev
       [slice_C0, slice_C1, slice_D0, slice_D1, slice_P0, slice_P1]
     = [slice_D0, slice_D1, slice_P0, slice_P1] \<and>
   (\<exists>!f. f \<in> set (CC_fragments [slice_D0, slice_D1, slice_P0, slice_P1]) \<and>
         fr_coordinates f = ''chr1:100-200|chr1:5000-5100'')"
proof -
  let ?t = "[slice_C0, slice_C1, slice_D0, slice_D1, slice_P0, slice_P1]"
  have p: "mset (rev (CC_fragments ?t)) = mset (CC_fragments ?t)" by (rule mset_rev)
  have co: "map fr_coordinates (CC_fragments ?t)
     = [''chr1:100-200|chr1:5000-5100'', ''chr1:100-200|chr1:300-400'',
        ''chr1:100-200|chr1:5000-5100'']"
    by code_simp
  have r: "remove_duplicate_slices CC_fragments rev ?t = [slice_D0, slice_D1, slice_P0, slice_P1]"
    by code_simp
  have "''chr1:100-200|chr1:5000-5100'' \<in> set (map fr_coordinates (CC_fragments ?t))"
    unfolding co by simp
  then have m: "''chr1:100-200|chr1:5000-5100'' \<in> fr_coordinates ` set (CC_fragments ?t)"
    by (simp only: set_map)
  note C7_one_survivor_per_coordinates [of rev ?t, THEN conjunct1, THEN mp, OF p]
  then have "\<forall>co \<in> fr_coordinates ` set (CC_fragments ?t).
         \<exists>!f. f \<in> set (CC_fragments (remove_duplicate_slices CC_fragments rev ?t)) \<and>
              fr_coordinates f = co"
    by (elim conjE)
  from this m have "\<exists>!f. f \<in> set (CC_fragments (remove_duplicate_slices CC_fragments rev ?t)) \<and>
              fr_coordinates f = ''chr1:100-200|chr1:5000-5100''"
    by (rule bspec)
  then have u: "\<exists>!f. f \<in> set (CC_fragments [slice_D0, slice_D1, slice_P0, slice_P1]) \<and>
         fr_coordinates f = ''chr1:100-200|chr1:5000-5100''"
    unfolding r .
  from p co r u show ?thesis by (intro conjI)
qed

subsection \<open>Reporters next to capture sites\<close>

lemma collect_Inr_append:
  "collect (map Inr xs @ rs) = (case collect rs of Inl e \<Rightarrow> Inl e | Inr ys \<Rightarrow> Inr (xs @ ys))"
  by (induction xs) (auto split: sum.splits)

lemma collect_int_append:
  "collect (map (add_modifier (IntV i)) ms @ rs)
     = (case collect rs of Inl e \<Rightarrow> Inl e | Inr ys \<Rightarrow> Inr (map (\<lambda>m. IntV (i + m)) ms @ ys))"
  by (induction ms) (auto split: sum.splits)

lemma excluded_fragments_ints:
  assumes "\<forall>c \<in> set fs. \<exists>i. c = IntV i"
  shows "\<exists>ex. excluded_fragments n fs = Inr ex \<and>
            set ex = {IntV (i + m) | i m. IntV i \<in> set fs \<and> - n \<le> m \<and> m \<le> n}"
  using assms
proof (induction fs)
  case Nil
  then show ?case by (simp add: excluded_fragments_def)
next
  case (Cons c fs)
  then obtain i where c: "c = IntV i" by auto
  from Cons obtain ex where ex: "excluded_fragments n fs = Inr ex"
    "set ex = {IntV (i + m) | i m. IntV i \<in> set fs \<and> - n \<le> m \<and> m \<le> n}"
    by auto
  have "excluded_fragments n (c # fs) = Inr (map (\<lambda>m. IntV (i + m)) [- n .. n] @ ex)"
    using ex(1) unfolding excluded_fragments_def c
    by (simp add: collect_int_append)
  moreover have "set (map (\<lambda>m. IntV (i + m)) [- n .. n] @ ex)
      = {IntV (j + m) | j m. IntV j \<in> set (c # fs) \<and> - n \<le> m \<and> m \<le> n}"
  proof -
    have "set (map (\<lambda>m. IntV (i + m)) [- n .. n]) = {IntV (i + m) | m. - n \<le> m \<and> m \<le> n}"
      by auto
    moreover have "{IntV (j + m) | j m. IntV j \<in> set (c # fs) \<and> - n \<le> m \<and> m \<le> n}
        = {IntV (i + m) | m. - n \<le> m \<and> m \<le> n}
          \<union> {IntV (j + m) | j m. IntV j \<in> set fs \<and> - n \<le> m \<and> m \<le> n}"
      unfolding c by auto
    ultimately show ?thesis using ex(2) by simp
  qed
  ultimately show ?case by blast
qed

lemma excluded_fragments_string:
  assumes "0 \<le> n" and "StrV s \<in> set fs"
  shows "excluded_fragments n fs = Inl TypeError"
  using assms(2)
proof (induction fs)
  case Nil
  then show ?case by simp
next
  case (Cons c fs)
  show ?case
  proof (cases c)
    case (StrV s')
    from assms(1) have "[- n .. n] = - n # [- n + 1 .. n]"
      by (simp add: upto_rec1)
    then show ?thesis
      unfolding excluded_fragments_def StrV by simp
  next
    case (IntV i)
    with Cons have "excluded_fragments n fs = Inl TypeError" by auto
    then show ?thesis
      unfolding excluded_fragments_def IntV by (simp add: collect_int_append)
  qed
qed

lemma capture_re_frags:
  "set (unique_first (map restriction_fragment (captures t)))
     = restriction_fragment ` {c \<in> set t. capture c \<noteq> ''.''}"
  by (auto simp add: set_unique_first captures_def)

lemma remove_multicapture_reporters_total_iff:
  "(0 \<le> n \<longrightarrow>
     (if \<forall>c \<in> set t. capture c \<noteq> ''.'' \<longrightarrow> (\<exists>i. restriction_fragment c = IntV i)
      then \<exists>t'. remove_multicapture_reporters n t = Inr t'
      else remove_multicapture_reporters n t = Inl TypeError))"
proof (intro impI)
  assume n: "0 \<le> n"
  let ?fs = "unique_first (map restriction_fragment (captures t))"
  show "if \<forall>c \<in> set t. capture c \<noteq> ''.'' \<longrightarrow> (\<exists>i. restriction_fragment c = IntV i)
      then \<exists>t'. remove_multicapture_reporters n t = Inr t'
      else remove_multicapture_reporters n t = Inl TypeError"
  proof (cases "\<forall>c \<in> set t. capture c \<noteq> ''.'' \<longrightarrow> (\<exists>i. restriction_fragment c = IntV i)")
    case True
    then have "\<forall>c \<in> set ?fs. \<exists>i. c = IntV i"
      unfolding capture_re_frags by auto
    from excluded_fragments_ints [OF this, of n] obtain ex where
      "excluded_fragments n ?fs = Inr ex" by blast
    then have "\<exists>t'. remove_multicapture_reporters n t = Inr t'"
      by (simp add: remove_multicapture_reporters_def Let_def)
    with True show ?thesis by simp
  next
    case False
    then obtain c where c: "c \<in> set t" "capture c \<noteq> ''.''" "\<nexists>i. restriction_fragment c = IntV i"
      by blast
    then obtain s where s: "restriction_fragment c = StrV s"
      by (cases "restriction_fragment c") auto
    with c have "StrV s \<in> set ?fs"
      unfolding capture_re_frags by force
    from excluded_fragments_string [OF n this]
    have "remove_multicapture_reporters n t = Inl TypeError"
      by (simp add: remove_multicapture_reporters_def Let_def)
    with False show ?thesis by simp
  qed
qed

text \<open>
  Claim C8, as stated, fails. The table of the reads U and X passes the seven operations
  that the standard pipeline runs before remove_multicapture_reporters unchanged. The
  capture slice of read U has the restriction fragment ".", so the operation raises
  TypeError and removes nothing: the reporter of read X on fragment 101 stays beside the
  capture slice on fragment 100.
\<close>

theorem C8_adjacent_reporter_kept_on_type_error:
  "call_filters (CC_methods (\<lambda>fs. fs))
     [''get_raw_slices'', ''remove_unmapped_slices'', ''remove_orphan_slices'',
      ''remove_multi_capture_fragments'', ''remove_excluded_slices'',
      ''remove_blacklisted_slices'', ''remove_non_reporter_fragments'']
     [slice_U0, slice_U1, slice_X0, slice_X1, slice_X2]
     = Inr [slice_U0, slice_U1, slice_X0, slice_X1, slice_X2] \<and>
   map capture [slice_U0, slice_U1, slice_X0, slice_X1, slice_X2]
     = [''Slc25A37'', ''.'', ''Slc25A37'', ''.'', ''.''] \<and>
   map capture_count [slice_U0, slice_U1, slice_X0, slice_X1, slice_X2] = [1, 0, 1, 0, 0] \<and>
   map restriction_fragment [slice_U0, slice_U1, slice_X0, slice_X1, slice_X2]
     = [StrV ''.'', IntV 5, IntV 100, IntV 101, IntV 103] \<and>
   remove_multicapture_reporters 1 [slice_U0, slice_U1, slice_X0, slice_X1, slice_X2]
     = Inl TypeError \<and>
   slices_after (CC_methods (\<lambda>fs. fs)) ''remove_multicapture_reporters''
       [slice_U0, slice_U1, slice_X0, slice_X1, slice_X2]
     = [slice_U0, slice_U1, slice_X0, slice_X1, slice_X2]"
  by code_simp

text \<open>
  Claim C8, amended. In the standard variant with n_adjacent = 1, on a table whose capture
  slices all carry integer restriction fragments, remove_multicapture_reporters returns a
  table in which every slice with capture_count > 0 is kept, and a slice without
  capture_count > 0 is removed exactly when its restriction fragment is an integer within
  1 of the restriction fragment of a capture slice of the table.
\<close>

theorem C8_adjacent_reporters_removed:
  assumes "\<forall>c \<in> set t. capture c \<noteq> ''.'' \<longrightarrow> (\<exists>i. restriction_fragment c = IntV i)"
  shows "\<exists>t'. remove_multicapture_reporters 1 t = Inr t' \<and>
           (\<forall>s \<in> set t.
              (capture_count s > 0 \<longrightarrow> s \<in> set t') \<and>
              (\<not> capture_count s > 0 \<longrightarrow>
                 (s \<notin> set t' \<longleftrightarrow>
                    (\<exists>c \<in> set t. capture c \<noteq> ''.'' \<and>
                       (\<exists>i j. restriction_fragment c = IntV i \<and> restriction_fragment s = IntV j \<and>
                              \<bar>j - i\<bar> \<le> 1))))) \<and>
           subseq t' t"
proof -
  let ?fs = "unique_first (map restriction_fragment (captures t))"
  from assms have "\<forall>c \<in> set ?fs. \<exists>i. c = IntV i"
    unfolding capture_re_frags by auto
  from excluded_fragments_ints [OF this, of 1] obtain ex where
    ex: "excluded_fragments 1 ?fs = Inr ex"
        "set ex = {IntV (i + m) | i m. IntV i \<in> set ?fs \<and> - 1 \<le> m \<and> m \<le> 1}" by blast
  define t' where "t' = filter (\<lambda>s. capture_count s > 0 \<or> \<not> restriction_fragment s \<in> set ex) t"
  have r: "remove_multicapture_reporters 1 t = Inr t'"
    using ex(1) by (simp add: remove_multicapture_reporters_def Let_def t'_def)
  have adj: "restriction_fragment s \<in> set ex \<longleftrightarrow>
      (\<exists>c \<in> set t. capture c \<noteq> ''.'' \<and>
         (\<exists>i j. restriction_fragment c = IntV i \<and> restriction_fragment s = IntV j \<and> \<bar>j - i\<bar> \<le> 1))"
    for s
  proof
    assume "restriction_fragment s \<in> set ex"
    then obtain i m where im: "restriction_fragment s = IntV (i + m)" "IntV i \<in> set ?fs"
      "- 1 \<le> m" "m \<le> 1"
      unfolding ex(2) by blast
    from im(2) obtain c where "c \<in> set t" "capture c \<noteq> ''.''" "restriction_fragment c = IntV i"
      unfolding capture_re_frags by force
    with im show "\<exists>c \<in> set t. capture c \<noteq> ''.'' \<and>
         (\<exists>i j. restriction_fragment c = IntV i \<and> restriction_fragment s = IntV j \<and> \<bar>j - i\<bar> \<le> 1)"
      by (intro bexI [of _ c]) auto
  next
    assume "\<exists>c \<in> set t. capture c \<noteq> ''.'' \<and>
         (\<exists>i j. restriction_fragment c = IntV i \<and> restriction_fragment s = IntV j \<and> \<bar>j - i\<bar> \<le> 1)"
    then obtain c i j where c: "c \<in> set t" "capture c \<noteq> ''.''" "restriction_fragment c = IntV i"
      "restriction_fragment s = IntV j" "\<bar>j - i\<bar> \<le> 1" by blast
    then have "IntV i \<in> set ?fs"
      unfolding capture_re_frags by force
    moreover have "j = i + (j - i)" "- 1 \<le> j - i" "j - i \<le> 1" using c(5) by auto
    ultimately show "restriction_fragment s \<in> set ex"
      unfolding ex(2) c(4) by blast
  qed
  have "subseq t' t" unfolding t'_def by simp
  moreover have "\<forall>s \<in> set t.
              (capture_count s > 0 \<longrightarrow> s \<in> set t') \<and>
              (\<not> capture_count s > 0 \<longrightarrow>
                 (s \<notin> set t' \<longleftrightarrow>
                    (\<exists>c \<in> set t. capture c \<noteq> ''.'' \<and>
                       (\<exists>i j. restriction_fragment c = IntV i \<and> restriction_fragment s = IntV j \<and>
                              \<bar>j - i\<bar> \<le> 1))))"
    unfolding t'_def using adj by auto
  ultimately show ?thesis using r by blast
qed


lemma pipeline_type_error:
  "call_filters (CC_methods (\<lambda>fs. fs))
     [''get_raw_slices'', ''remove_unmapped_slices'', ''remove_orphan_slices'',
      ''remove_multi_capture_fragments'', ''remove_excluded_slices'',
      ''remove_blacklisted_slices'', ''remove_non_reporter_fragments'']
     [slice_U0, slice_U1] = Inr [slice_U0, slice_U1] \<and>
   (case CCSliceFilter_init all_columns [slice_U0, slice_U1] None of
      Inl e \<Rightarrow> False
    | Inr self0 \<Rightarrow> filter_slices (CC_methods (\<lambda>fs. fs)) (\<lambda>t. Inr (CC_slice_stats t)) self0 = Inl TypeError)"
  by code_simp

text \<open>
  Claim C10. For n_adjacent \<ge> 0, remove_multicapture_reporters returns exactly when
  the restriction fragment of every capture slice is an integer, and raises TypeError
  otherwise. The standard pipeline reaches the operation with such a table: for the read
  U, whose capture slice has the restriction fragment ".", the seven operations
  before it keep both slices, and the pipeline run ends in TypeError.
\<close>

theorem C10_type_error_on_unassigned_capture:
  "(0 \<le> n \<longrightarrow>
     (if \<forall>c \<in> set t. capture c \<noteq> ''.'' \<longrightarrow> (\<exists>i. restriction_fragment c = IntV i)
      then \<exists>t'. remove_multicapture_reporters n t = Inr t'
      else remove_multicapture_reporters n t = Inl TypeError)) \<and>
   call_filters (CC_methods (\<lambda>fs. fs))
     [''get_raw_slices'', ''remove_unmapped_slices'', ''remove_orphan_slices'',
      ''remove_multi_capture_fragments'', ''remove_excluded_slices'',
      ''remove_blacklisted_slices'', ''remove_non_reporter_fragments'']
     [slice_U0, slice_U1] = Inr [slice_U0, slice_U1] \<and>
   (case CCSliceFilter_init all_columns [slice_U0, slice_U1] None of
      Inl e \<Rightarrow> False
    | Inr self0 \<Rightarrow> filter_slices (CC_methods (\<lambda>fs. fs)) (\<lambda>t. Inr (CC_slice_stats t)) self0 = Inl TypeError)"
  using remove_multicapture_reporters_total_iff pipeline_type_error by (intro conjI) blast+

text \<open>Witness for C10: the table of read U.\<close>

theorem C10_type_error_on_unassigned_capture_witness:
  "(0::int) \<le> 1 \<and> capture slice_U0 \<noteq> ''.'' \<and> restriction_fragment slice_U0 = StrV ''.'' \<and>
   remove_multicapture_reporters 1 [slice_U0, slice_U1] = Inl TypeError"
proof -
  have a: "capture slice_U0 \<noteq> ''.''" by code_simp
  have b: "restriction_fragment slice_U0 = StrV ''.''" by code_simp
  from a b have n: "\<not> (\<forall>c \<in> set [slice_U0, slice_U1].
      capture c \<noteq> ''.'' \<longrightarrow> (\<exists>i. restriction_fragment c = IntV i))"
    by simp
  from C10_type_error_on_unassigned_capture [of 1 "[slice_U0, slice_U1]", THEN conjunct1] n
  have "remove_multicapture_reporters 1 [slice_U0, slice_U1] = Inl TypeError"
    by (simp only: if_False)
  with a b show ?thesis by simp
qed

text \<open>
  Witness for C8: with a capture slice on fragment 100, the reporter on fragment 101 is
  removed and the reporter on fragment 103 is kept.
\<close>

theorem C8_adjacent_reporters_removed_witness:
  "map capture [slice_X0, slice_X1, slice_X2] = [''Slc25A37'', ''.'', ''.''] \<and>
   map restriction_fragment [slice_X0, slice_X1, slice_X2] = [IntV 100, IntV 101, IntV 103] \<and>
   map capture_count [slice_X0, slice_X1, slice_X2] = [1, 0, 0] \<and>
   remove_multicapture_reporters 1 [slice_X0, slice_X1, slice_X2] = Inr [slice_X0, slice_X2] \<and>
   subseq [slice_X0, slice_X2] [slice_X0, slice_X1, slice_X2]"
proof -
  have h: "\<forall>c \<in> set [slice_X0, slice_X1, slice_X2].
      capture c \<noteq> ''.'' \<longrightarrow> (\<exists>i. restriction_fragment c = IntV i)"
    by (simp add: slice_X0_def slice_X1_def slice_X2_def mk_slice_def)
  have r: "remove_multicapture_reporters 1 [slice_X0, slice_X1, slice_X2] = Inr [slice_X0, slice_X2]"
    by code_simp
  have v: "map restriction_fragment [slice_X0, slice_X1, slice_X2] = [IntV 100, IntV 101, IntV 103]"
    "map capture_count [slice_X0, slice_X1, slice_X2] = [1, 0, 0]"
    by code_simp+
  have w: "map capture [slice_X0, slice_X1, slice_X2] = [''Slc25A37'', ''.'', ''.'']"
    by code_simp
  from C8_adjacent_reporters_removed [OF h] obtain t' where
    t': "remove_multicapture_reporters 1 [slice_X0, slice_X1, slice_X2] = Inr t'"
        "subseq t' [slice_X0, slice_X1, slice_X2]"
    by blast
  from t'(1) r have "t' = [slice_X0, slice_X2]" by simp
  with t'(2) have "subseq [slice_X0, slice_X2] [slice_X0, slice_X1, slice_X2]" by simp
  with w r v show ?thesis by (intro conjI)
qed

subsection \<open>Removal of duplicate paired-end fragments\<close>

lemma str_contains_self: "str_contains x x"
  by (cases x) simp_all

lemma first_value_member: "g \<noteq> [] \<Longrightarrow> first_value (map h g) \<in> h ` set g"
  by (cases g) simp_all

lemma TiledC_fragments_member:
  assumes "f \<in> set (TiledC_fragments t)"
  shows "f = tiled_agg (fr_parent_read f)
               (sort_for_fragments (filter (\<lambda>s. parent_read s = fr_parent_read f) t))"
    and "fr_parent_read f \<in> parent_read ` set t"
proof -
  from assms obtain k where k: "k \<in> set (unique_first (map parent_read (sort_for_fragments t)))"
    and f: "f = tiled_agg k (filter (\<lambda>s. parent_read s = k) (sort_for_fragments t))"
    by (auto simp add: TiledC_fragments_def groupby_parent_read_def)
  have pk: "fr_parent_read f = k"
    by (simp add: f tiled_agg_def)
  show "f = tiled_agg (fr_parent_read f)
               (sort_for_fragments (filter (\<lambda>s. parent_read s = fr_parent_read f) t))"
    unfolding pk by (simp add: f group_of_fragment)
  from k show "fr_parent_read f \<in> parent_read ` set t"
    unfolding pk by (simp add: set_unique_first set_sort_for_fragments)
qed

lemma fragment_pe_from_slice:
  assumes "fr_pe f = first_value (map pe (sort_for_fragments (filter (\<lambda>s. parent_read s = fr_parent_read f) t)))"
    and "fr_parent_read f \<in> parent_read ` set t"
  shows "\<exists>s \<in> set t. parent_read s = fr_parent_read f \<and> pe s = fr_pe f"
proof -
  let ?g = "sort_for_fragments (filter (\<lambda>s. parent_read s = fr_parent_read f) t)"
  from assms(2) have "set ?g \<noteq> {}"
    unfolding set_sort_for_fragments by auto
  then have "?g \<noteq> []" by auto
  from first_value_member [OF this, of pe] assms(1)
  have "fr_pe f \<in> pe ` set ?g" by simp
  then show ?thesis
    unfolding set_sort_for_fragments by auto
qed

lemma CC_fragment_pe:
  assumes "f \<in> set (CC_fragments t)"
  shows "\<exists>s \<in> set t. parent_read s = fr_parent_read f \<and> pe s = fr_pe f"
proof (rule fragment_pe_from_slice)
  show "fr_pe f = first_value (map pe (sort_for_fragments (filter (\<lambda>s. parent_read s = fr_parent_read f) t)))"
    by (subst CC_fragments_member(1) [OF assms]) (simp add: cc_agg_def Let_def)
  show "fr_parent_read f \<in> parent_read ` set t"
    by (rule CC_fragments_member(2) [OF assms])
qed

lemma TiledC_fragment_pe:
  assumes "f \<in> set (TiledC_fragments t)"
  shows "\<exists>s \<in> set t. parent_read s = fr_parent_read f \<and> pe s = fr_pe f"
proof (rule fragment_pe_from_slice)
  show "fr_pe f = first_value (map pe (sort_for_fragments (filter (\<lambda>s. parent_read s = fr_parent_read f) t)))"
    by (subst TiledC_fragments_member(1) [OF assms]) (simp add: tiled_agg_def)
  show "fr_parent_read f \<in> parent_read ` set t"
    by (rule TiledC_fragments_member(2) [OF assms])
qed

text \<open>There are at most as many unflashed fragments as slices whose pe contains "unflashed".\<close>

lemma unflashed_fragments_le:
  fixes frs :: "'a fragment_scheme list"
  assumes d: "distinct (map fr_parent_read frs)"
    and m: "\<And>f. f \<in> set frs \<Longrightarrow> \<exists>s \<in> set t. parent_read s = fr_parent_read f \<and> pe s = fr_pe f"
  shows "length (filter (\<lambda>f. fr_pe f = ''unflashed'') frs)
           \<le> length (filter (\<lambda>s. str_contains ''unflashed'' (pe s)) t)"
proof -
  let ?F = "filter (\<lambda>f. fr_pe f = ''unflashed'') frs"
  let ?S = "filter (\<lambda>s. str_contains ''unflashed'' (pe s)) t"
  from d have "distinct (map fr_parent_read ?F)"
    by (rule distinct_map_filter)
  then have "card (set (map fr_parent_read ?F)) = length (map fr_parent_read ?F)"
    by (rule distinct_card)
  then have "length ?F = card (set (map fr_parent_read ?F))"
    by simp
  also have "\<dots> \<le> card (set (map parent_read ?S))"
  proof (rule card_mono)
    show "finite (set (map parent_read ?S))" by simp
    show "set (map fr_parent_read ?F) \<subseteq> set (map parent_read ?S)"
    proof
      fix p assume "p \<in> set (map fr_parent_read ?F)"
      then obtain f where f: "f \<in> set frs" "fr_pe f = ''unflashed''" "p = fr_parent_read f" by auto
      from m [OF f(1)] obtain s where "s \<in> set t" "parent_read s = fr_parent_read f" "pe s = fr_pe f"
        by blast
      with f show "p \<in> set (map parent_read ?S)"
        by (auto simp add: str_contains_self image_iff intro!: bexI [of _ s])
    qed
  qed
  also have "\<dots> \<le> length ?S"
    using card_length [of "map parent_read ?S"] by simp
  finally show ?thesis .
qed

lemma dup_rows_short: "length xs \<le> 1 \<Longrightarrow> dup_rows key [] xs = []"
  by (cases xs) (auto simp add: Suc_le_eq)

text \<open>The guard of remove_duplicate_slices_pe changes no result.\<close>

lemma remove_duplicate_slices_pe_unguarded:
  fixes fragments :: "slice_row list \<Rightarrow> 'a fragment_scheme list"
  assumes d: "distinct (map fr_parent_read (fragments t))"
    and m: "\<And>f. f \<in> set (fragments t) \<Longrightarrow>
              \<exists>s \<in> set t. parent_read s = fr_parent_read f \<and> pe s = fr_pe f"
  shows "remove_duplicate_slices_pe fragments t =
           filter (\<lambda>s. parent_read s \<notin> set (map fr_parent_read
                    (duplicated_rows (\<lambda>f. (read_start (fr_coordinates f), read_end (fr_coordinates f)))
                       (filter (\<lambda>f. fr_pe f = ''unflashed'') (fragments t))))) t"
proof (cases "length (filter (\<lambda>s. str_contains ''unflashed'' (pe s)) t) > 1")
  case True
  then show ?thesis by (simp add: remove_duplicate_slices_pe_def Let_def)
next
  case False
  with unflashed_fragments_le [OF d m]
  have "length (filter (\<lambda>f. fr_pe f = ''unflashed'') (fragments t)) \<le> 1" by simp
  then have "duplicated_rows (\<lambda>f. (read_start (fr_coordinates f), read_end (fr_coordinates f)))
                       (filter (\<lambda>f. fr_pe f = ''unflashed'') (fragments t)) = []"
    unfolding duplicated_rows_def by (rule dup_rows_short)
  with False show ?thesis by (simp add: remove_duplicate_slices_pe_def)
qed

lemma remove_duplicate_slices_pe_CC:
  "remove_duplicate_slices_pe CC_fragments t =
     filter (\<lambda>s. parent_read s \<notin> set (map fr_parent_read
              (duplicated_rows (\<lambda>f. (read_start (fr_coordinates f), read_end (fr_coordinates f)))
                 (filter (\<lambda>f. fr_pe f = ''unflashed'') (CC_fragments t))))) t"
  by (rule remove_duplicate_slices_pe_unguarded [OF distinct_keys_CC_fragments CC_fragment_pe])

lemma remove_duplicate_slices_pe_TiledC:
  "remove_duplicate_slices_pe TiledC_fragments t =
     filter (\<lambda>s. parent_read s \<notin> set (map fr_parent_read
              (duplicated_rows (\<lambda>f. (read_start (fr_coordinates f), read_end (fr_coordinates f)))
                 (filter (\<lambda>f. fr_pe f = ''unflashed'') (TiledC_fragments t))))) t"
  by (rule remove_duplicate_slices_pe_unguarded [OF distinct_keys_TiledC_fragments TiledC_fragment_pe])

text \<open>
  A row is selected by duplicated exactly when its key was seen before or is the key of
  an earlier row.
\<close>

lemma dup_rows_iff:
  "x \<in> set (dup_rows key seen xs) \<longleftrightarrow>
     (\<exists>ys zs. xs = ys @ x # zs \<and> (key x \<in> set seen \<or> key x \<in> key ` set ys))"
proof (induction xs arbitrary: seen)
  case Nil
  then show ?case by simp
next
  case (Cons a xs)
  have split: "(\<exists>ys zs. a # xs = ys @ x # zs \<and> (key x \<in> set seen \<or> key x \<in> key ` set ys))
      \<longleftrightarrow> (a = x \<and> key x \<in> set seen)
          \<or> (\<exists>ys zs. xs = ys @ x # zs \<and>
                (key x \<in> set seen \<or> key x = key a \<or> key x \<in> key ` set ys))"
    (is "?L \<longleftrightarrow> ?R1 \<or> ?R2")
  proof
    assume ?L
    then obtain ys zs where yz: "a # xs = ys @ x # zs" "key x \<in> set seen \<or> key x \<in> key ` set ys"
      by blast
    show "?R1 \<or> ?R2"
    proof (cases ys)
      case Nil
      with yz show ?thesis by auto
    next
      case (Cons b ys')
      with yz have "xs = ys' @ x # zs" "key x \<in> set seen \<or> key x = key a \<or> key x \<in> key ` set ys'"
        by auto
      then show ?thesis by blast
    qed
  next
    assume "?R1 \<or> ?R2"
    then show ?L
    proof
      assume ?R1
      then have "a # xs = [] @ x # xs \<and> (key x \<in> set seen \<or> key x \<in> key ` set [])" by simp
      then show ?L by blast
    next
      assume ?R2
      then obtain ys zs where "xs = ys @ x # zs"
        "key x \<in> set seen \<or> key x = key a \<or> key x \<in> key ` set ys" by blast
      then have "a # xs = (a # ys) @ x # zs \<and> (key x \<in> set seen \<or> key x \<in> key ` set (a # ys))"
        by auto
      then show ?L by blast
    qed
  qed
  show ?case
  proof (cases "key a \<in> set seen")
    case True
    have "x \<in> set (dup_rows key seen (a # xs)) \<longleftrightarrow> x = a \<or> x \<in> set (dup_rows key seen xs)"
      using True by simp
    also have "\<dots> \<longleftrightarrow> x = a \<or>
        (\<exists>ys zs. xs = ys @ x # zs \<and> (key x \<in> set seen \<or> key x \<in> key ` set ys))"
      unfolding Cons.IH [of seen] ..
    also have "\<dots> \<longleftrightarrow> (a = x \<and> key x \<in> set seen)
          \<or> (\<exists>ys zs. xs = ys @ x # zs \<and>
                (key x \<in> set seen \<or> key x = key a \<or> key x \<in> key ` set ys))"
      using True by (metis (no_types, lifting))
    finally show ?thesis unfolding split .
  next
    case False
    have "x \<in> set (dup_rows key seen (a # xs)) \<longleftrightarrow> x \<in> set (dup_rows key (key a # seen) xs)"
      using False by simp
    also have "\<dots> \<longleftrightarrow>
        (\<exists>ys zs. xs = ys @ x # zs \<and> (key x \<in> set (key a # seen) \<or> key x \<in> key ` set ys))"
      unfolding Cons.IH [of "key a # seen"] ..
    also have "\<dots> \<longleftrightarrow> (a = x \<and> key x \<in> set seen)
          \<or> (\<exists>ys zs. xs = ys @ x # zs \<and>
                (key x \<in> set seen \<or> key x = key a \<or> key x \<in> key ` set ys))"
      using False by auto
    finally show ?thesis unfolding split .
  qed
qed

text \<open>
  What the operation does in the standard variant: a slice is removed exactly when its
  parent read is that of an unflashed fragment whose pair of read start and read end,
  taken from the coordinates string, is the pair of an earlier unflashed fragment.
\<close>

lemma remove_duplicate_slices_pe_CC_kept:
  "s \<in> set (remove_duplicate_slices_pe CC_fragments t) \<longleftrightarrow>
     s \<in> set t \<and>
     \<not> (\<exists>ys f zs. filter (\<lambda>f. fr_pe f = ''unflashed'') (CC_fragments t) = ys @ f # zs \<and>
           fr_parent_read f = parent_read s \<and>
           (read_start (fr_coordinates f), read_end (fr_coordinates f))
             \<in> (\<lambda>f. (read_start (fr_coordinates f), read_end (fr_coordinates f))) ` set ys)"
proof -
  let ?key = "\<lambda>f :: cc_fragment. (read_start (fr_coordinates f), read_end (fr_coordinates f))"
  let ?F = "filter (\<lambda>f. fr_pe f = ''unflashed'') (CC_fragments t)"
  have "parent_read s \<in> set (map fr_parent_read (duplicated_rows ?key ?F)) \<longleftrightarrow>
      (\<exists>ys f zs. ?F = ys @ f # zs \<and> fr_parent_read f = parent_read s \<and> ?key f \<in> ?key ` set ys)"
  proof
    assume "parent_read s \<in> set (map fr_parent_read (duplicated_rows ?key ?F))"
    then obtain f where f: "f \<in> set (dup_rows ?key [] ?F)" "fr_parent_read f = parent_read s"
      unfolding duplicated_rows_def by auto
    from f(1) obtain ys zs where "?F = ys @ f # zs" "?key f \<in> ?key ` set ys"
      unfolding dup_rows_iff by auto
    with f(2) show "\<exists>ys f zs. ?F = ys @ f # zs \<and> fr_parent_read f = parent_read s \<and> ?key f \<in> ?key ` set ys"
      by blast
  next
    assume "\<exists>ys f zs. ?F = ys @ f # zs \<and> fr_parent_read f = parent_read s \<and> ?key f \<in> ?key ` set ys"
    then obtain ys f zs where yz: "?F = ys @ f # zs" "fr_parent_read f = parent_read s"
      "?key f \<in> ?key ` set ys" by blast
    then have "f \<in> set (dup_rows ?key [] ?F)"
      unfolding dup_rows_iff by blast
    with yz(2) show "parent_read s \<in> set (map fr_parent_read (duplicated_rows ?key ?F))"
      unfolding duplicated_rows_def by force
  qed
  then show ?thesis
    unfolding remove_duplicate_slices_pe_CC by simp
qed

lemma split_on_nonempty: "split_on P x \<noteq> []"
  by (induction x) (auto split: list.splits)

















end
